theory Spec2Isabelle
  imports Complex_Main "HOL-Library.Word" "HOL-Library.AList"
begin

section \<open>Constants (types/index.ts)\<close>

text \<open>
  JavaScript numbers that hold sizes, counts and indices are modelled as \<open>nat\<close>;
  clock readings (\<open>Date.now()\<close>, milliseconds) and numbers taken from the wire are
  \<open>int\<close>. A JavaScript string is a \<open>string\<close>; an \<open>ArrayBuffer\<close> is a list of bytes.
\<close>

type_synonym byte = "8 word"

definition CHUNK_SIZE :: nat where
  "CHUNK_SIZE = 64 * 1024"

definition MAX_FILE_SIZE :: nat where
  "MAX_FILE_SIZE = 2 * 1024 * 1024 * 1024"

definition MAX_SESSION_SIZE :: nat where
  "MAX_SESSION_SIZE = 10 * 1024 * 1024 * 1024"

definition ROOM_CODE_LENGTH :: nat where
  "ROOM_CODE_LENGTH = 8"

definition MAX_PIN_ATTEMPTS :: int where
  "MAX_PIN_ATTEMPTS = 3"

definition MAX_CONNECTION_ATTEMPTS :: nat where
  "MAX_CONNECTION_ATTEMPTS = 3"

definition CONNECTION_ATTEMPT_WINDOW_MS :: int where
  "CONNECTION_ATTEMPT_WINDOW_MS = 5 * 60 * 1000"

definition APPROVAL_TIMEOUT_MS :: nat where
  "APPROVAL_TIMEOUT_MS = 30 * 1000"

section \<open>Room codes (utils/security.ts)\<close>

definition ROOM_CODE_ALPHABET :: string where
  "ROOM_CODE_ALPHABET = ''ABCDEFGHJKMNPQRSTUVWXYZ23456789''"

text \<open>
  \<open>generateSecureRoomCode\<close> allocates a \<open>Uint8Array\<close> of \<open>ROOM_CODE_LENGTH\<close> bytes and
  lets \<open>crypto.getRandomValues\<close> fill it. The random source is the parameter \<open>rnd\<close>:
  \<open>rnd i\<close> is the byte written at index \<open>i\<close>.
\<close>

definition generateSecureRoomCode :: "(nat \<Rightarrow> byte) \<Rightarrow> string" where
  "generateSecureRoomCode rnd =
     (let array = map rnd [0..<ROOM_CODE_LENGTH];
          code = map (\<lambda>b. ROOM_CODE_ALPHABET ! (unat b mod length ROOM_CODE_ALPHABET)) array
      in take 4 code @ ''-'' @ drop 4 code)"

text \<open>\<open>code.replace(/-/g, '')\<close>: every dash is removed.\<close>

definition stripDashes :: "string \<Rightarrow> string" where
  "stripDashes code = filter (\<lambda>c. c \<noteq> CHR ''-'') code"

section \<open>File name sanitization (utils/security.ts)\<close>

text \<open>\<open>name.replace(/\.\./g, '')\<close>: one pass from the left over non-overlapping matches.\<close>

fun removeDotDot :: "string \<Rightarrow> string" where
  "removeDotDot [] = []"
| "removeDotDot [c] = [c]"
| "removeDotDot (c # d # cs) =
     (if c = CHR ''.'' \<and> d = CHR ''.'' then removeDotDot cs else c # removeDotDot (d # cs))"

definition isPathSeparator :: "char \<Rightarrow> bool" where
  "isPathSeparator c = (c = CHR ''/'' \<or> c = CHR 0x5C)"

definition isMarkupChar :: "char \<Rightarrow> bool" where
  "isMarkupChar c = (c = CHR ''<'' \<or> c = CHR ''>'' \<or> c = CHR '':'' \<or> c = CHR 0x22
     \<or> c = CHR ''|'' \<or> c = CHR ''?'' \<or> c = CHR ''*'')"

definition isControlChar :: "char \<Rightarrow> bool" where
  "isControlChar c = ((of_char c :: nat) \<le> 0x1f \<or> (of_char c :: nat) = 0x7f)"

text \<open>
  \<open>String.prototype.lastIndexOf\<close> returns \<open>-1\<close> when the character does not occur;
  \<open>String.prototype.slice\<close> counts a negative bound from the end of the string.
\<close>

definition lastIndexOf :: "string \<Rightarrow> char \<Rightarrow> int" where
  "lastIndexOf s c =
     (case filter (\<lambda>i. s ! i = c) (rev [0..<length s]) of
        [] \<Rightarrow> -1
      | i # _ \<Rightarrow> int i)"

definition sliceBound :: "nat \<Rightarrow> int \<Rightarrow> nat" where
  "sliceBound len i = (if i < 0 then nat (max (int len + i) 0) else min (nat i) len)"

definition slice :: "'a list \<Rightarrow> int \<Rightarrow> int \<Rightarrow> 'a list" where
  "slice s start end =
     (let from = sliceBound (length s) start; to = sliceBound (length s) end
      in take (to - from) (drop from s))"

definition sliceFrom :: "'a list \<Rightarrow> int \<Rightarrow> 'a list" where
  "sliceFrom s start = drop (sliceBound (length s) start) s"

text \<open>
  \<open>String.prototype.trim\<close> strips white space and line terminators from both ends;
  these are the ones among the code units that \<open>char\<close> covers.
\<close>

definition isWhiteSpace :: "char \<Rightarrow> bool" where
  "isWhiteSpace c = ((of_char c :: nat) \<in> {0x09, 0x0A, 0x0B, 0x0C, 0x0D, 0x20, 0xA0})"

definition trim :: "string \<Rightarrow> string" where
  "trim s = rev (dropWhile isWhiteSpace (rev (dropWhile isWhiteSpace s)))"

definition sanitizeFileName :: "string \<Rightarrow> string" where
  "sanitizeFileName name =
     (let sanitized = removeDotDot name;
          sanitized = filter (\<lambda>c. \<not> isPathSeparator c) sanitized;
          sanitized = filter (\<lambda>c. \<not> isMarkupChar c) sanitized;
          sanitized = filter (\<lambda>c. \<not> isControlChar c) sanitized;
          sanitized =
            (if length sanitized > 255 then
               (let ext = lastIndexOf sanitized CHR ''.'' in
                if ext > 0 then
                  (let extension = sliceFrom sanitized ext;
                       baseName = slice sanitized 0 (255 - int (length extension))
                   in baseName @ extension)
                else slice sanitized 0 255)
             else sanitized)
      in if trim sanitized = [] then ''unnamed_file'' else sanitized)"

section \<open>Rate limiting (utils/security.ts)\<close>

record RateLimitEntry =
  attempts :: nat
  firstAttempt :: int
  lastAttempt :: int
  blocked :: bool
  blockedUntil :: "int option"

type_synonym rateLimitStore = "string \<rightharpoonup> RateLimitEntry"

text \<open>
  The module-level \<open>rateLimitStore\<close> is passed in and returned; \<open>now\<close> is the reading of
  \<open>Date.now()\<close>. \<open>entry.blockedUntil && now < entry.blockedUntil\<close> is false for \<open>null\<close>
  and for \<open>0\<close>.
\<close>

definition isRateLimited :: "int \<Rightarrow> rateLimitStore \<Rightarrow> string \<Rightarrow> nat \<Rightarrow> int \<Rightarrow> bool \<times> rateLimitStore" where
  "isRateLimited now store key maxAttempts windowMs =
     (case store key of
        None \<Rightarrow> (False, store)
      | Some entry \<Rightarrow>
          if blocked entry \<and> (case blockedUntil entry of None \<Rightarrow> False | Some u \<Rightarrow> u \<noteq> 0 \<and> now < u)
          then (True, store)
          else if now - firstAttempt entry > windowMs then (False, store(key := None))
          else (attempts entry \<ge> maxAttempts, store))"

definition recordAttempt ::
  "int \<Rightarrow> rateLimitStore \<Rightarrow> string \<Rightarrow> nat \<Rightarrow> int \<Rightarrow> int \<Rightarrow> RateLimitEntry \<times> rateLimitStore" where
  "recordAttempt now store key maxAttempts windowMs blockDurationMs =
     (let entry =
        (case store key of
           None \<Rightarrow> \<lparr>attempts = 1, firstAttempt = now, lastAttempt = now,
                     blocked = False, blockedUntil = None\<rparr>
         | Some e \<Rightarrow>
             if now - firstAttempt e > windowMs
             then \<lparr>attempts = 1, firstAttempt = now, lastAttempt = now,
                    blocked = False, blockedUntil = None\<rparr>
             else (let e' = e\<lparr>attempts := attempts e + 1, lastAttempt := now\<rparr>
                   in if attempts e' \<ge> maxAttempts
                      then e'\<lparr>blocked := True, blockedUntil := Some (now + blockDurationMs)\<rparr>
                      else e'))
      in (entry, store(key \<mapsto> entry)))"

definition clearRateLimit :: "rateLimitStore \<Rightarrow> string \<Rightarrow> rateLimitStore" where
  "clearRateLimit store key = store(key := None)"

text \<open>The calls the connection hook makes leave every optional argument at its default.\<close>

definition isRateLimited_default :: "int \<Rightarrow> rateLimitStore \<Rightarrow> string \<Rightarrow> bool \<times> rateLimitStore" where
  "isRateLimited_default now store key =
     isRateLimited now store key MAX_CONNECTION_ATTEMPTS CONNECTION_ATTEMPT_WINDOW_MS"

definition recordAttempt_default :: "int \<Rightarrow> rateLimitStore \<Rightarrow> string \<Rightarrow> RateLimitEntry \<times> rateLimitStore" where
  "recordAttempt_default now store key =
     recordAttempt now store key MAX_CONNECTION_ATTEMPTS CONNECTION_ATTEMPT_WINDOW_MS (5 * 60 * 1000)"

section \<open>Chunk checksums (utils/security.ts)\<close>

text \<open>
  \<open>crypto.subtle.digest('SHA-256', data)\<close> belongs to the platform. It is the parameter
  \<open>digest\<close>, a function from the bytes to a 256-bit value; \<open>digestBytes\<close> is the
  \<open>Uint8Array\<close> view of the 32-byte result, most significant byte first.
\<close>

type_synonym digest = "byte list \<Rightarrow> 256 word"

definition digestBytes :: "256 word \<Rightarrow> byte list" where
  "digestBytes w = map (\<lambda>i. ucast (drop_bit (8 * (31 - i)) w)) [0..<32]"

text \<open>
  \<open>b.toString(16).padStart(2, '0')\<close>: \<open>Number.prototype.toString\<close> writes the digits
  above nine as lower-case letters.
\<close>

definition lowerHexDigits :: string where
  "lowerHexDigits = ''0123456789abcdef''"

definition hexDigit :: "nat \<Rightarrow> char" where
  "hexDigit d = lowerHexDigits ! d"

fun toString16 :: "nat \<Rightarrow> string" where
  "toString16 n = (if n < 16 then [hexDigit n] else toString16 (n div 16) @ [hexDigit (n mod 16)])"

definition padStart :: "string \<Rightarrow> nat \<Rightarrow> char \<Rightarrow> string" where
  "padStart s n c = replicate (n - length s) c @ s"

definition generateChecksum :: "digest \<Rightarrow> byte list \<Rightarrow> string" where
  "generateChecksum digest data =
     (let hashArray = digestBytes (digest data)
      in concat (map (\<lambda>b. padStart (toString16 (unat b)) 2 CHR ''0'') (slice hashArray 0 8)))"

definition verifyChecksum :: "digest \<Rightarrow> byte list \<Rightarrow> string \<Rightarrow> bool" where
  "verifyChecksum digest data expectedChecksum =
     (let actualChecksum = generateChecksum digest data
      in actualChecksum = expectedChecksum)"

section \<open>Wire messages (types/index.ts)\<close>

record FileMetadata =
  id_md :: string
  name_md :: string
  sanitizedName :: string
  size_md :: nat
  type_md :: string
  lastModified :: int
  totalChunks :: nat
  hash_md :: "string option"

record FileMetadataPayload = FileMetadata +
  batchId :: string
  fileIndex :: nat
  totalFilesInBatch :: nat

record FileChunkPayload =
  fileId :: string
  chunkIndex :: nat
  totalChunks_c :: nat
  data :: "byte list"
  checksum :: string

text \<open>
  One constructor per \<open>PeerMessageType\<close>, carrying the payload fields the handlers
  read. The envelope's \<open>timestamp\<close> is read by no handler and is left out.
\<close>

datatype PeerMessage =
    connection_request string string
  | connection_approved
  | connection_denied string
  | pin_required
  | pin_attempt string int
  | pin_verified
  | pin_invalid int
  | file_metadata FileMetadataPayload
  | file_chunk FileChunkPayload
  | file_complete string string
  | file_verified
  | file_error string string
  | batch_start string nat nat
  | batch_complete string
  | heartbeat
  | disconnect

section \<open>Sessions (utils/security.ts)\<close>

record Session =
  roomCode_s :: string
  createdAt :: int
  expiresAt :: int
  pin :: "string option"

type_synonym sessionStore = "string \<rightharpoonup> Session"

text \<open>
  \<open>toUpperCase\<close> on the letters \<open>a\<close> to \<open>z\<close>; room codes are made of ASCII letters
  and digits, and other code units are left as they are.
\<close>

definition toUpperCase :: "string \<Rightarrow> string" where
  "toUpperCase s =
     map (\<lambda>c. if (97::nat) \<le> of_char c \<and> of_char c \<le> (122::nat)
              then char_of (of_char c - (32::nat)) else c) s"

definition normalizeRoomCode :: "string \<Rightarrow> string" where
  "normalizeRoomCode code = toUpperCase (stripDashes code)"

definition destroySession :: "sessionStore \<Rightarrow> string \<Rightarrow> sessionStore" where
  "destroySession store roomCode = store(normalizeRoomCode roomCode := None)"

section \<open>Connection state machine (hooks/useWebRTC.ts)\<close>

datatype ConnectionState =
    S_idle | S_connecting | S_awaiting_approval | S_connected
  | S_transferring | S_completed | S_error | S_disconnected

record ConnectionInfo =
  state :: ConnectionState
  peerId :: "string option"
  remotePeerId :: "string option"
  roomCode :: "string option"
  connectedAt :: "int option"
  error :: "string option"
  isPinRequired :: bool
  isPinVerified :: bool

datatype Mode = host | client

text \<open>What the hook hands to \<open>onError\<close>.\<close>

datatype ErrorReport = ErrorText string | InvalidPin int

text \<open>
  A call of \<open>onPinRequired\<close> whose promise is still open, with what its continuation
  captured: the \<open>pin_required\<close> handler nothing, the \<open>pin_invalid\<close> handler
  \<open>attemptsRemaining\<close>.
\<close>

datatype PinPrompt = AfterPinRequired | AfterPinInvalid int

text \<open>
  The state of one \<open>useWebRTC\<close> instance: its React state (\<open>connectionInfo\<close>), its
  refs, the two module-level stores it reaches, and a log of the calls it makes to its
  collaborators (the data connection and the callbacks in its options). The audit log
  is written and never read; it is left out. \<open>connectionOpen\<close> says that
  \<open>connectionRef.current\<close> is set and open; a \<open>send\<close> on an open connection is taken
  to succeed.
\<close>

record WebRTC =
  mode :: Mode
  hasOnConnectionRequest :: bool
  hasOnPinRequired :: bool
  connectionInfo :: ConnectionInfo
  connectionOpen :: bool
  peerAlive :: bool
  heartbeatRunning :: bool
  pinHashRef :: "string option"
  pinAttemptsRef :: int
  roomCodeRef :: "string option"
  rateLimits :: rateLimitStore
  sessions :: sessionStore
  sent :: "PeerMessage list"
  approvalCalls :: "string list"
  pendingApprovals :: "string list"
  pinPromptCalls :: nat
  pendingPinPrompts :: "PinPrompt list"
  forwarded :: "PeerMessage list"
  onConnectedCalls :: nat
  onDisconnectedCalls :: nat
  onErrorCalls :: "ErrorReport list"

definition cleanup :: "WebRTC \<Rightarrow> WebRTC" where
  "cleanup w =
     w\<lparr>heartbeatRunning := False,
       connectionOpen := False,
       peerAlive := False,
       sessions := (case roomCodeRef w of
                      None \<Rightarrow> sessions w
                    | Some rc \<Rightarrow> if rc = [] then sessions w else destroySession (sessions w) rc),
       roomCodeRef := None,
       pinHashRef := None,
       pinAttemptsRef := 0\<rparr>"

definition sendMessage :: "PeerMessage \<Rightarrow> WebRTC \<Rightarrow> bool \<times> WebRTC" where
  "sendMessage message w =
     (if \<not> connectionOpen w then (False, w)
      else (True, w\<lparr>sent := sent w @ [message]\<rparr>))"

definition send :: "PeerMessage \<Rightarrow> WebRTC \<Rightarrow> WebRTC" where
  "send message w = snd (sendMessage message w)"

definition startHeartbeat :: "WebRTC \<Rightarrow> WebRTC" where
  "startHeartbeat w = w\<lparr>heartbeatRunning := True\<rparr>"

text \<open>
  The \<open>connection_request\<close> handler up to its \<open>await\<close>: the rate-limit check, the
  recorded attempt and the call of the approval provider, whose promise stays open.
\<close>

definition connectionRequested :: "int \<Rightarrow> string \<Rightarrow> WebRTC \<Rightarrow> WebRTC" where
  "connectionRequested now remotePeer w =
     (if mode w = host \<and> hasOnConnectionRequest w then
        (case isRateLimited_default now (rateLimits w) remotePeer of
           (limited, store) \<Rightarrow>
             if limited
             then send (connection_denied ''Too many attempts'') (w\<lparr>rateLimits := store\<rparr>)
             else
               (let w = w\<lparr>rateLimits := snd (recordAttempt_default now store remotePeer)\<rparr>;
                    w = w\<lparr>connectionInfo := (connectionInfo w)\<lparr>state := S_awaiting_approval\<rparr>\<rparr>
                in w\<lparr>approvalCalls := approvalCalls w @ [remotePeer],
                     pendingApprovals := pendingApprovals w @ [remotePeer]\<rparr>))
      else w)"

text \<open>The rest of that handler, run when the promise resolves to \<open>approved\<close>.\<close>

definition approvalContinuation :: "int \<Rightarrow> string \<Rightarrow> bool \<Rightarrow> WebRTC \<Rightarrow> WebRTC" where
  "approvalContinuation now remotePeer approved w =
     (if approved then
        (let w = w\<lparr>rateLimits := clearRateLimit (rateLimits w) remotePeer\<rparr> in
         if pinHashRef w \<noteq> None \<and> pinHashRef w \<noteq> Some []
         then (let w = send pin_required w
               in w\<lparr>connectionInfo := (connectionInfo w)\<lparr>isPinRequired := True\<rparr>\<rparr>)
         else (let w = send connection_approved w;
                   w = w\<lparr>connectionInfo := (connectionInfo w)
                          \<lparr>state := S_connected, connectedAt := Some now,
                           remotePeerId := Some remotePeer\<rparr>\<rparr>;
                   w = startHeartbeat w
               in w\<lparr>onConnectedCalls := onConnectedCalls w + 1\<rparr>))
      else
        (let w = send (connection_denied ''Connection denied'') w
         in w\<lparr>connectionInfo := (connectionInfo w)\<lparr>state := S_idle\<rparr>\<rparr>))"

definition approvalResolved :: "int \<Rightarrow> string \<Rightarrow> bool \<Rightarrow> WebRTC \<Rightarrow> WebRTC" where
  "approvalResolved now remotePeer approved w =
     (if remotePeer \<in> set (pendingApprovals w)
      then approvalContinuation now remotePeer approved
             (w\<lparr>pendingApprovals := remove1 remotePeer (pendingApprovals w)\<rparr>)
      else w)"

text \<open>
  The continuation of a PIN prompt: \<open>hashPin\<close> is the platform's SHA-256 in hexadecimal,
  a parameter here.
\<close>

definition pinEntryContinuation ::
  "(string \<Rightarrow> string) \<Rightarrow> PinPrompt \<Rightarrow> string option \<Rightarrow> WebRTC \<Rightarrow> WebRTC" where
  "pinEntryContinuation hashPin prompt entered w =
     (case prompt of
        AfterPinRequired \<Rightarrow>
          (if entered \<noteq> None \<and> entered \<noteq> Some []
           then send (pin_attempt (hashPin (the entered)) (pinAttemptsRef w + 1)) w
           else (let w = send disconnect w;
                     w = cleanup w
                 in w\<lparr>connectionInfo := (connectionInfo w)
                        \<lparr>state := S_idle, error := Some ''PIN entry cancelled''\<rparr>\<rparr>))
      | AfterPinInvalid attemptsRemaining \<Rightarrow>
          (if entered \<noteq> None \<and> entered \<noteq> Some []
           then send (pin_attempt (hashPin (the entered)) (MAX_PIN_ATTEMPTS - attemptsRemaining + 1)) w
           else w))"

definition pinEntryResolved ::
  "(string \<Rightarrow> string) \<Rightarrow> PinPrompt \<Rightarrow> string option \<Rightarrow> WebRTC \<Rightarrow> WebRTC" where
  "pinEntryResolved hashPin prompt entered w =
     (if prompt \<in> set (pendingPinPrompts w)
      then pinEntryContinuation hashPin prompt entered
             (w\<lparr>pendingPinPrompts := remove1 prompt (pendingPinPrompts w)\<rparr>)
      else w)"

text \<open>\<open>handleMessage\<close>, one equation per \<open>case\<close> of its \<open>switch\<close>.\<close>

fun handleMessage :: "int \<Rightarrow> PeerMessage \<Rightarrow> WebRTC \<Rightarrow> WebRTC" where
  "handleMessage now (connection_request remotePeer deviceInfo) w =
     connectionRequested now remotePeer w"
| "handleMessage now connection_approved w =
     (if mode w = client then
        (let w = w\<lparr>connectionInfo := (connectionInfo w)
                   \<lparr>state := S_connected, connectedAt := Some now, isPinVerified := True\<rparr>\<rparr>;
             w = startHeartbeat w
         in w\<lparr>onConnectedCalls := onConnectedCalls w + 1\<rparr>)
      else w)"
| "handleMessage now (connection_denied reason) w =
     (if mode w = client then
        (let reason = (if reason = [] then ''Connection denied'' else reason);
             w = w\<lparr>connectionInfo := (connectionInfo w)\<lparr>state := S_error, error := Some reason\<rparr>\<rparr>
         in w\<lparr>onErrorCalls := onErrorCalls w @ [ErrorText reason]\<rparr>)
      else w)"
| "handleMessage now pin_required w =
     (if mode w = client \<and> hasOnPinRequired w then
        (let w = w\<lparr>connectionInfo := (connectionInfo w)\<lparr>isPinRequired := True\<rparr>\<rparr>
         in w\<lparr>pinPromptCalls := pinPromptCalls w + 1,
              pendingPinPrompts := pendingPinPrompts w @ [AfterPinRequired]\<rparr>)
      else w)"
| "handleMessage now (pin_attempt hashedPin attemptNumber) w =
     (if mode w = host then
        (if Some hashedPin = pinHashRef w then
           (let w = send pin_verified w;
                w = send connection_approved w;
                w = w\<lparr>connectionInfo := (connectionInfo w)
                      \<lparr>state := S_connected, connectedAt := Some now, isPinVerified := True\<rparr>\<rparr>;
                w = startHeartbeat w
            in w\<lparr>onConnectedCalls := onConnectedCalls w + 1\<rparr>)
         else
           (let w = w\<lparr>pinAttemptsRef := attemptNumber\<rparr> in
            if attemptNumber \<ge> MAX_PIN_ATTEMPTS then
              (let w = send (connection_denied ''Too many PIN attempts'') w;
                   w = cleanup w
               in w\<lparr>connectionInfo := (connectionInfo w)\<lparr>state := S_idle\<rparr>\<rparr>)
            else send (pin_invalid (MAX_PIN_ATTEMPTS - attemptNumber)) w))
      else w)"
| "handleMessage now pin_verified w =
     (if mode w = client
      then w\<lparr>connectionInfo := (connectionInfo w)\<lparr>isPinVerified := True\<rparr>\<rparr>
      else w)"
| "handleMessage now (pin_invalid attemptsRemaining) w =
     (if mode w = client \<and> hasOnPinRequired w then
        (let w = w\<lparr>onErrorCalls := onErrorCalls w @ [InvalidPin attemptsRemaining]\<rparr>
         in w\<lparr>pinPromptCalls := pinPromptCalls w + 1,
              pendingPinPrompts := pendingPinPrompts w @ [AfterPinInvalid attemptsRemaining]\<rparr>)
      else w)"
| "handleMessage now heartbeat w = w"
| "handleMessage now disconnect w =
     (let w = cleanup w;
          w = w\<lparr>connectionInfo := (connectionInfo w)\<lparr>state := S_disconnected\<rparr>\<rparr>
      in w\<lparr>onDisconnectedCalls := onDisconnectedCalls w + 1\<rparr>)"
| "handleMessage now message w = w\<lparr>forwarded := forwarded w @ [message]\<rparr>"

text \<open>
  What can happen to a hook instance: a message arrives on the data connection, the
  approval provider resolves the promise it returned for a peer, or the PIN-entry
  provider resolves the promise of a prompt.
\<close>

datatype Event =
    Receive int PeerMessage
  | ApprovalResolved int string bool
  | PinEntryResolved PinPrompt "string option"

fun step :: "(string \<Rightarrow> string) \<Rightarrow> WebRTC \<Rightarrow> Event \<Rightarrow> WebRTC" where
  "step hashPin w (Receive now message) = handleMessage now message w"
| "step hashPin w (ApprovalResolved now remotePeer approved) = approvalResolved now remotePeer approved w"
| "step hashPin w (PinEntryResolved prompt entered) = pinEntryResolved hashPin prompt entered w"

definition run :: "(string \<Rightarrow> string) \<Rightarrow> WebRTC \<Rightarrow> Event list \<Rightarrow> WebRTC" where
  "run hashPin w events = foldl (step hashPin) w events"

text \<open>
  A host that has finished \<open>connectAsHost\<close> and holds an open data connection from a
  peer: room \<open>code\<close> is shown, no request has been handled yet.
\<close>

definition hostReady :: "string \<Rightarrow> string option \<Rightarrow> rateLimitStore \<Rightarrow> WebRTC" where
  "hostReady code pinHash store =
     \<lparr>mode = host, hasOnConnectionRequest = True, hasOnPinRequired = False,
      connectionInfo = \<lparr>state = S_idle, peerId = Some (''st-'' @ normalizeRoomCode code),
        remotePeerId = None, roomCode = Some code, connectedAt = None, error = None,
        isPinRequired = (pinHash \<noteq> None), isPinVerified = False\<rparr>,
      connectionOpen = True, peerAlive = True, heartbeatRunning = False,
      pinHashRef = pinHash, pinAttemptsRef = 0, roomCodeRef = Some code,
      rateLimits = store,
      sessions = [normalizeRoomCode code \<mapsto>
        \<lparr>roomCode_s = normalizeRoomCode code, createdAt = 0, expiresAt = 60 * 60 * 1000, pin = None\<rparr>],
      sent = [], approvalCalls = [], pendingApprovals = [], pinPromptCalls = 0,
      pendingPinPrompts = [], forwarded = [], onConnectedCalls = 0, onDisconnectedCalls = 0,
      onErrorCalls = []\<rparr>"

section \<open>Connection approval prompt (ReceiverView.tsx, ConnectionApprovalModal.tsx)\<close>

text \<open>
  The approval provider the receiving view passes to the hook. \<open>pendingApproval\<close>, state
  of \<open>ReceiverView\<close>, holds the peer of the request on display (and, in the source, the
  \<open>resolve\<close> of its promise). \<open>timeRemaining\<close> and \<open>isExpired\<close> are the state of
  \<open>ConnectionApprovalModal\<close>, which stays mounted and is given
  \<open>isOpen = !!pendingApproval\<close>.
\<close>

record ApprovalPrompt =
  pendingApproval :: "string option"
  timeRemaining :: nat
  isExpired :: bool

definition isOpen :: "ApprovalPrompt \<Rightarrow> bool" where
  "isOpen ui \<longleftrightarrow> pendingApproval ui \<noteq> None"

text \<open>
  A callback or an effect belongs to a render: it reads the state \<open>ui\<close> of that render,
  and what it sets goes into the state \<open>next\<close> of the render to come. Each returns
  \<open>next\<close> updated; those that may resolve the promise also return the answers given,
  each with the peer it is for.

  \<open>handleApprove\<close> and \<open>handleDeny\<close> of \<open>ReceiverView\<close>, the modal's \<open>onApprove\<close> and
  \<open>onDeny\<close>:
\<close>

definition handleApprove :: "ApprovalPrompt \<Rightarrow> ApprovalPrompt \<Rightarrow> ApprovalPrompt \<times> (string \<times> bool) list" where
  "handleApprove ui next =
     (case pendingApproval ui of
        None \<Rightarrow> (next, [])
      | Some peer \<Rightarrow> (next\<lparr>pendingApproval := None\<rparr>, [(peer, True)]))"

definition handleDeny :: "ApprovalPrompt \<Rightarrow> ApprovalPrompt \<Rightarrow> ApprovalPrompt \<times> (string \<times> bool) list" where
  "handleDeny ui next =
     (case pendingApproval ui of
        None \<Rightarrow> (next, [])
      | Some peer \<Rightarrow> (next\<lparr>pendingApproval := None\<rparr>, [(peer, False)]))"

text \<open>
  The modal's effects, in the order of the source. The first, with dependencies
  \<open>[isOpen]\<close>, resets the countdown when the modal is open. The second, with
  \<open>[isOpen, isExpired]\<close>, keeps a one-second interval running while the modal is open
  and not expired (\<open>intervalRunning\<close>); its callback is \<open>countDown\<close>. The third, with
  \<open>[isExpired, onDeny]\<close>, denies when the countdown has expired.
\<close>

definition resetEffect :: "ApprovalPrompt \<Rightarrow> ApprovalPrompt \<Rightarrow> ApprovalPrompt" where
  "resetEffect ui next =
     (if isOpen ui
      then next\<lparr>timeRemaining := APPROVAL_TIMEOUT_MS div 1000, isExpired := False\<rparr>
      else next)"

definition intervalRunning :: "ApprovalPrompt \<Rightarrow> bool" where
  "intervalRunning ui \<longleftrightarrow> isOpen ui \<and> \<not> isExpired ui"

definition countDown :: "ApprovalPrompt \<Rightarrow> ApprovalPrompt" where
  "countDown ui =
     (if timeRemaining ui \<le> 1
      then ui\<lparr>timeRemaining := 0, isExpired := True\<rparr>
      else ui\<lparr>timeRemaining := timeRemaining ui - 1\<rparr>)"

definition autoDenyEffect :: "ApprovalPrompt \<Rightarrow> ApprovalPrompt \<Rightarrow> ApprovalPrompt \<times> (string \<times> bool) list" where
  "autoDenyEffect ui next = (if isExpired ui then handleDeny ui next else (next, []))"

text \<open>
  After the render of \<open>ui\<close>, the effects run whose dependencies differ from those of the
  render before, \<open>previous\<close>. \<open>onDeny\<close> is \<open>handleDeny\<close>, a callback with dependencies
  \<open>[pendingApproval]\<close>: it differs when \<open>pendingApproval\<close> was set to a new value in
  between, which \<open>replaced\<close> says.
\<close>

definition effects :: "ApprovalPrompt \<Rightarrow> bool \<Rightarrow> ApprovalPrompt \<Rightarrow> ApprovalPrompt \<times> (string \<times> bool) list" where
  "effects previous replaced ui =
     (let next = (if isOpen ui \<noteq> isOpen previous then resetEffect ui ui else ui)
      in if isExpired ui \<noteq> isExpired previous \<or> replaced
         then autoDenyEffect ui next
         else (next, []))"

text \<open>
  What the effects set is rendered in turn, and the effects of that render run. Two
  rounds reach a state that a third leaves as it is (\<open>commit_settles\<close>).
\<close>

definition commit :: "ApprovalPrompt \<Rightarrow> bool \<Rightarrow> ApprovalPrompt \<Rightarrow> ApprovalPrompt \<times> (string \<times> bool) list" where
  "commit previous replaced ui =
     (let (ui1, answers1) = effects previous replaced ui;
          (ui2, answers2) = effects ui (pendingApproval ui1 \<noteq> pendingApproval ui) ui1
      in (ui2, answers1 @ answers2))"

text \<open>
  \<open>handleConnectionRequest\<close> of \<open>ReceiverView\<close>: the promise it returns sets
  \<open>pendingApproval\<close> to a new object, whether the modal is open or not.
\<close>

definition handleConnectionRequest :: "string \<Rightarrow> ApprovalPrompt \<Rightarrow> ApprovalPrompt \<times> (string \<times> bool) list" where
  "handleConnectionRequest peer ui = commit ui True (ui\<lparr>pendingApproval := Some peer\<rparr>)"

definition intervalTick :: "ApprovalPrompt \<Rightarrow> ApprovalPrompt \<times> (string \<times> bool) list" where
  "intervalTick ui = (if intervalRunning ui then commit ui False (countDown ui) else (ui, []))"

text \<open>The modal's own \<open>handleApprove\<close> and \<open>handleDeny\<close>, behind its two buttons.\<close>

definition modalHandleApprove :: "ApprovalPrompt \<Rightarrow> ApprovalPrompt \<times> (string \<times> bool) list" where
  "modalHandleApprove ui =
     (if \<not> isExpired ui
      then (let (next, answers) = handleApprove ui ui;
                (ui', more) = commit ui (pendingApproval next \<noteq> pendingApproval ui) next
            in (ui', answers @ more))
      else (ui, []))"

definition modalHandleDeny :: "ApprovalPrompt \<Rightarrow> ApprovalPrompt \<times> (string \<times> bool) list" where
  "modalHandleDeny ui =
     (let (next, answers) = handleDeny ui ui;
          (ui', more) = commit ui (pendingApproval next \<noteq> pendingApproval ui) next
      in (ui', answers @ more))"

text \<open>
  The receiving view: the hook in host mode with this prompt as its approval provider.
  A call the hook makes to the provider goes to \<open>handleConnectionRequest\<close>; an answer of
  the prompt resolves the hook's promise for that peer.
\<close>

datatype ViewEvent =
    Incoming int PeerMessage
  | IntervalTick int
  | ClickApprove int
  | ClickDeny int

fun resolveAll :: "int \<Rightarrow> WebRTC \<Rightarrow> (string \<times> bool) list \<Rightarrow> WebRTC" where
  "resolveAll now w [] = w"
| "resolveAll now w ((peer, approved) # answers) = resolveAll now (approvalResolved now peer approved w) answers"

definition resolveWith :: "int \<Rightarrow> WebRTC \<Rightarrow> ApprovalPrompt \<times> (string \<times> bool) list \<Rightarrow> WebRTC \<times> ApprovalPrompt" where
  "resolveWith now w r = (resolveAll now w (snd r), fst r)"

fun viewStep :: "WebRTC \<times> ApprovalPrompt \<Rightarrow> ViewEvent \<Rightarrow> WebRTC \<times> ApprovalPrompt" where
  "viewStep (w, ui) (Incoming now message) =
     (let w' = handleMessage now message w
      in if length (approvalCalls w') > length (approvalCalls w)
         then resolveWith now w' (handleConnectionRequest (last (approvalCalls w')) ui)
         else (w', ui))"
| "viewStep (w, ui) (IntervalTick now) = resolveWith now w (intervalTick ui)"
| "viewStep (w, ui) (ClickApprove now) = resolveWith now w (modalHandleApprove ui)"
| "viewStep (w, ui) (ClickDeny now) = resolveWith now w (modalHandleDeny ui)"

text \<open>The prompt as the view mounts it.\<close>

definition closedPrompt :: ApprovalPrompt where
  "closedPrompt = \<lparr>pendingApproval = None, timeRemaining = APPROVAL_TIMEOUT_MS div 1000, isExpired = False\<rparr>"

section \<open>Files and their metadata (utils/fileValidation.ts)\<close>

record File =
  name_f :: string
  type_f :: string
  lastModified_f :: int
  content :: "byte list"

definition toLowerCase :: "string \<Rightarrow> string" where
  "toLowerCase s =
     map (\<lambda>c. if (65::nat) \<le> of_char c \<and> of_char c \<le> (90::nat)
              then char_of (of_char c + (32::nat)) else c) s"

definition BLOCKED_EXTENSIONS :: "string list" where
  "BLOCKED_EXTENSIONS =
     [''.exe'', ''.bat'', ''.cmd'', ''.com'', ''.msi'', ''.scr'',
      ''.vbs'', ''.vbe'', ''.js'', ''.jse'', ''.ws'', ''.wsf'', ''.wsc'', ''.wsh'',
      ''.ps1'', ''.psm1'', ''.psd1'',
      ''.sh'', ''.bash'', ''.zsh'',
      ''.app'', ''.dmg'', ''.pkg'',
      ''.apk'', ''.deb'', ''.rpm'']"

definition getFileExtension :: "string \<Rightarrow> string" where
  "getFileExtension fileName =
     (let lastDot = lastIndexOf fileName CHR ''.''
      in if lastDot = -1 then [] else toLowerCase (sliceFrom fileName lastDot))"

definition isBlockedExtension :: "string \<Rightarrow> bool" where
  "isBlockedExtension fileName = (getFileExtension fileName \<in> set BLOCKED_EXTENSIONS)"

text \<open>
  \<open>validateFile\<close>: the list of errors; the file is valid when it is empty. The warnings
  (MIME type, signature, changed name) do not enter \<open>isValid\<close> and are left out.
\<close>

definition validateFile :: "File \<Rightarrow> string list" where
  "validateFile file =
     (if length (content file) > MAX_FILE_SIZE then [''File exceeds maximum size of 2GB''] else [])
     @ (if length (content file) = 0 then [''File is empty''] else [])
     @ (if isBlockedExtension (name_f file)
        then [''This file type is not allowed for security reasons''] else [])"

text \<open>
  \<open>Math.ceil(file.size / CHUNK_SIZE)\<close>. The identifier comes from \<open>generateFileId\<close>
  (clock and \<open>Math.random\<close>) and is passed in.
\<close>

definition createFileMetadata :: "digest \<Rightarrow> string \<Rightarrow> File \<Rightarrow> FileMetadata" where
  "createFileMetadata digest newId file =
     \<lparr>id_md = newId,
      name_md = name_f file,
      sanitizedName = sanitizeFileName (name_f file),
      size_md = length (content file),
      type_md = (if type_f file = [] then ''application/octet-stream'' else type_f file),
      lastModified = lastModified_f file,
      totalChunks = nat \<lceil>real (length (content file)) / real CHUNK_SIZE\<rceil>,
      hash_md = Some (generateChecksum digest (slice (content file) 0 (int CHUNK_SIZE)))\<rparr>"

section \<open>Chunked transfer (hooks/useFileTransfer.ts)\<close>

datatype FileStatus = pending | transferring | completed | failed | cancelled

datatype BatchStatus = B_idle | B_transferring | B_completed | B_failed | B_cancelled

text \<open>
  \<open>percentage\<close>, \<open>speed\<close> and \<open>estimatedTimeRemaining\<close> (and the batch's
  \<open>overallPercentage\<close> and \<open>averageSpeed\<close>) are floating-point quotients that nothing
  below reads; the records keep the other fields. The byte counters are \<open>int\<close>: the
  sender subtracts from its running total.
\<close>

record TransferProgress =
  fileId_p :: string
  fileName :: string
  fileSize :: nat
  bytesTransferred :: int
  status :: FileStatus
  error_p :: "string option"

record BatchProgress =
  totalFiles :: nat
  completedFiles :: nat
  totalBytes :: nat
  bytesTransferred_b :: int
  currentFileId :: "string option"
  status_b :: BatchStatus

text \<open>What the hook hands to \<open>onError\<close>.\<close>

datatype TransferError =
    FileFailedValidation string "string list"
  | NoValidFilesToSend
  | SessionLimitExceeded nat
  | FailedToSendFileChunk
  | ReceivedChunkForUnknownFile
  | FileCorruptionDetected
  | FileCompletionForUnknownFile
  | ReportedBySender string

text \<open>
  The state of one \<open>useFileTransfer\<close> instance. The two maps held in React state and in
  refs are association lists in insertion order. A chunk array is a JavaScript array
  with holes: \<open>None\<close> is a hole. The arrays live in a store (\<open>arrays\<close>, addressed by
  number) because the continuation of \<open>verifyChecksum\<close> keeps the array it looked up
  when the chunk arrived: \<open>pendingChecksums\<close> are the continuations not yet run, each
  with its array and its chunk. The remaining fields log the calls to the callbacks
  and the messages \<open>sendMessage\<close> accepted.
\<close>

record FileTransfer =
  fileProgress :: "(string \<times> TransferProgress) list"
  batchProgress :: BatchProgress
  isSending :: bool
  isReceiving :: bool
  receivedChunksRef :: "(string \<times> nat) list"
  arrays :: "nat \<Rightarrow> byte list option list"
  nextArray :: nat
  fileMetadataRef :: "(string \<times> FileMetadata) list"
  pendingChecksums :: "(nat \<times> FileChunkPayload) list"
  outbox :: "PeerMessage list"
  onProgressCalls :: "(TransferProgress \<times> BatchProgress) list"
  onFileReceivedCalls :: "(byte list \<times> FileMetadata) list"
  onTransferCompleteCalls :: nat
  onErrorCalls_t :: "TransferError list"

definition initialTransfer :: FileTransfer where
  "initialTransfer =
     \<lparr>fileProgress = [],
      batchProgress = \<lparr>totalFiles = 0, completedFiles = 0, totalBytes = 0, bytesTransferred_b = 0,
                        currentFileId = None, status_b = B_idle\<rparr>,
      isSending = False, isReceiving = False,
      receivedChunksRef = [], arrays = (\<lambda>_. []), nextArray = 0, fileMetadataRef = [],
      pendingChecksums = [], outbox = [], onProgressCalls = [], onFileReceivedCalls = [],
      onTransferCompleteCalls = 0, onErrorCalls_t = []\<rparr>"

text \<open>\<open>updateFileProgress\<close>: the entry is changed only when it exists.\<close>

definition updateFileProgress ::
  "string \<Rightarrow> (TransferProgress \<Rightarrow> TransferProgress) \<Rightarrow> FileTransfer \<Rightarrow> FileTransfer" where
  "updateFileProgress fid updates t =
     (case map_of (fileProgress t) fid of
        None \<Rightarrow> t
      | Some current \<Rightarrow> t\<lparr>fileProgress := AList.update fid (updates current) (fileProgress t)\<rparr>)"

definition onError :: "TransferError \<Rightarrow> FileTransfer \<Rightarrow> FileTransfer" where
  "onError e t = t\<lparr>onErrorCalls_t := onErrorCalls_t t @ [e]\<rparr>"

text \<open>The sum the invariant of the data model speaks of.\<close>

definition sumFileBytes :: "FileTransfer \<Rightarrow> int" where
  "sumFileBytes t = sum_list (map (\<lambda>(fid, p). bytesTransferred p) (fileProgress t))"

definition progressConsistent :: "FileTransfer \<Rightarrow> bool" where
  "progressConsistent t = (sumFileBytes t = bytesTransferred_b (batchProgress t))"

subsection \<open>Sending\<close>

text \<open>
  What \<open>sendFiles\<close> takes from outside: the platform digest, the \<open>sendMessage\<close> of the
  connection hook, the value of \<open>cancelledRef\<close> at each place the loop reads it (the flag
  is set by \<open>cancelTransfer\<close> between two steps of the asynchronous loop), the identifier
  generator (its argument counts the files accepted so far) and the batch identifier
  (made from the clock).
\<close>

datatype Checkpoint = BeforeFile nat | BeforeChunk nat nat | BeforeBatchComplete

record SendEnv =
  digest_e :: digest
  sendMessage_e :: "PeerMessage \<Rightarrow> bool"
  cancelledRef_e :: "Checkpoint \<Rightarrow> bool"
  generateFileId_e :: "nat \<Rightarrow> string"
  batchId_e :: string

text \<open>A \<open>sendMessage\<close> whose result the caller ignores.\<close>

definition emit :: "SendEnv \<Rightarrow> PeerMessage \<Rightarrow> FileTransfer \<Rightarrow> FileTransfer" where
  "emit env message t =
     (if sendMessage_e env message then t\<lparr>outbox := outbox t @ [message]\<rparr> else t)"

fun validateFiles ::
  "SendEnv \<Rightarrow> File list \<Rightarrow> (File \<times> FileMetadata) list \<Rightarrow> nat \<Rightarrow> FileTransfer
   \<Rightarrow> (File \<times> FileMetadata) list \<times> nat \<times> FileTransfer" where
  "validateFiles env [] validFiles totalSize t = (validFiles, totalSize, t)"
| "validateFiles env (file # files) validFiles totalSize t =
     (let errors = validateFile file in
      if errors \<noteq> []
      then validateFiles env files validFiles totalSize
             (onError (FileFailedValidation (name_f file) errors) t)
      else
        (let metadata = createFileMetadata (digest_e env)
                          (generateFileId_e env (length validFiles)) file
         in validateFiles env files (validFiles @ [(file, metadata)])
              (totalSize + length (content file)) t))"

definition chunkMessage :: "digest \<Rightarrow> File \<Rightarrow> FileMetadata \<Rightarrow> nat \<Rightarrow> PeerMessage" where
  "chunkMessage digest file metadata chunkIdx =
     (let start = chunkIdx * CHUNK_SIZE;
          end = min (start + CHUNK_SIZE) (length (content file));
          chunkData = slice (content file) (int start) (int end);
          checksum = generateChecksum digest chunkData
      in file_chunk \<lparr>fileId = id_md metadata, chunkIndex = chunkIdx,
                     totalChunks_c = totalChunks metadata, data = chunkData,
                     checksum = checksum\<rparr>)"

text \<open>
  The chunk loop of one file, over the chunk indices still to send. \<open>captured\<close> is the
  \<open>fileProgress\<close> map the callback closed over when it was created: the state as it was
  before \<open>sendFiles\<close> was called, whatever \<open>setFileProgress\<close> has done since.
  \<open>chunkSent\<close> is the part of the loop body after a successful send: the running total
  and the progress updates.
\<close>

definition chunkSent ::
  "(string \<times> TransferProgress) list \<Rightarrow> BatchProgress \<Rightarrow> File \<Rightarrow> FileMetadata \<Rightarrow> nat
   \<Rightarrow> int \<Rightarrow> FileTransfer \<Rightarrow> int \<times> FileTransfer" where
  "chunkSent captured initialBatch file metadata chunkIdx totalBytesTransferred t =
     (let bytes = int (min (chunkIdx * CHUNK_SIZE + CHUNK_SIZE) (length (content file)));
          totalBytesTransferred = totalBytesTransferred
            - (case map_of captured (id_md metadata) of
                 None \<Rightarrow> 0 | Some p \<Rightarrow> bytesTransferred p)
            + bytes;
          t = updateFileProgress (id_md metadata) (\<lambda>p. p\<lparr>bytesTransferred := bytes\<rparr>) t;
          t = t\<lparr>batchProgress := (batchProgress t)\<lparr>bytesTransferred_b := totalBytesTransferred\<rparr>\<rparr>;
          t = t\<lparr>onProgressCalls := onProgressCalls t @
                [(\<lparr>fileId_p = id_md metadata, fileName = sanitizedName metadata,
                   fileSize = size_md metadata, bytesTransferred = bytes,
                   status = transferring, error_p = None\<rparr>,
                  initialBatch\<lparr>bytesTransferred_b := totalBytesTransferred\<rparr>)]\<rparr>
      in (totalBytesTransferred, t))"

text \<open>
  \<open>Inl\<close> is the \<open>return\<close> after a failed send, \<open>Inr\<close> the end of the loop (or its
  \<open>break\<close>) with the running total.
\<close>

fun sendChunks ::
  "SendEnv \<Rightarrow> (string \<times> TransferProgress) list \<Rightarrow> BatchProgress \<Rightarrow> File \<Rightarrow> FileMetadata
   \<Rightarrow> nat \<Rightarrow> nat list \<Rightarrow> int \<Rightarrow> FileTransfer \<Rightarrow> FileTransfer + int \<times> FileTransfer" where
  "sendChunks env captured initialBatch file metadata fileIdx [] totalBytesTransferred t =
     Inr (totalBytesTransferred, t)"
| "sendChunks env captured initialBatch file metadata fileIdx (chunkIdx # rest) totalBytesTransferred t =
     (if cancelledRef_e env (BeforeChunk fileIdx chunkIdx) then Inr (totalBytesTransferred, t)
      else
        (let message = chunkMessage (digest_e env) file metadata chunkIdx in
         if \<not> sendMessage_e env message then
           (let t = updateFileProgress (id_md metadata)
                      (\<lambda>p. p\<lparr>status := failed, error_p := Some ''Send failed''\<rparr>) t;
                t = t\<lparr>isSending := False\<rparr>
            in Inl (onError FailedToSendFileChunk t))
         else
           (case chunkSent captured initialBatch file metadata chunkIdx totalBytesTransferred
                   (t\<lparr>outbox := outbox t @ [message]\<rparr>) of
              (totalBytesTransferred, t) \<Rightarrow>
                sendChunks env captured initialBatch file metadata fileIdx rest
                  totalBytesTransferred t)))"

text \<open>
  The loop over the accepted files. \<open>metadataPayload\<close> is
  \<open>{...metadata, batchId, fileIndex, totalFilesInBatch}\<close>; \<open>startFile\<close> is the body up to
  the chunk loop, \<open>completeFile\<close> the body after it.
\<close>

definition metadataPayload :: "string \<Rightarrow> nat \<Rightarrow> nat \<Rightarrow> FileMetadata \<Rightarrow> FileMetadataPayload" where
  "metadataPayload batch fileIdx filesInBatch metadata =
     \<lparr>id_md = id_md metadata, name_md = name_md metadata,
      sanitizedName = sanitizedName metadata, size_md = size_md metadata,
      type_md = type_md metadata, lastModified = lastModified metadata,
      totalChunks = totalChunks metadata, hash_md = hash_md metadata,
      batchId = batch, fileIndex = fileIdx, totalFilesInBatch = filesInBatch\<rparr>"

definition startFile :: "SendEnv \<Rightarrow> BatchProgress \<Rightarrow> nat \<Rightarrow> FileMetadata \<Rightarrow> FileTransfer \<Rightarrow> FileTransfer" where
  "startFile env initialBatch fileIdx metadata t =
     (let t = t\<lparr>batchProgress := (batchProgress t)\<lparr>currentFileId := Some (id_md metadata)\<rparr>\<rparr>;
          t = updateFileProgress (id_md metadata) (\<lambda>p. p\<lparr>status := transferring\<rparr>) t
      in emit env (file_metadata
           (metadataPayload (batchId_e env) fileIdx (totalFiles initialBatch) metadata)) t)"

definition completeFile :: "SendEnv \<Rightarrow> File \<Rightarrow> FileMetadata \<Rightarrow> FileTransfer \<Rightarrow> FileTransfer" where
  "completeFile env file metadata t =
     (let t = emit env (file_complete (id_md metadata)
                (case hash_md metadata of None \<Rightarrow> [] | Some h \<Rightarrow> h)) t;
          t = updateFileProgress (id_md metadata)
                (\<lambda>p. p\<lparr>status := completed,
                       bytesTransferred := int (length (content file))\<rparr>) t
      in t\<lparr>batchProgress := (batchProgress t)
            \<lparr>completedFiles := completedFiles (batchProgress t) + 1\<rparr>\<rparr>)"

fun sendEach ::
  "SendEnv \<Rightarrow> (string \<times> TransferProgress) list \<Rightarrow> BatchProgress \<Rightarrow> nat
   \<Rightarrow> (File \<times> FileMetadata) list \<Rightarrow> int \<Rightarrow> FileTransfer \<Rightarrow> FileTransfer + FileTransfer" where
  "sendEach env captured initialBatch fileIdx [] totalBytesTransferred t = Inr t"
| "sendEach env captured initialBatch fileIdx ((file, metadata) # rest) totalBytesTransferred t =
     (if cancelledRef_e env (BeforeFile fileIdx) then Inr t
      else
        (case sendChunks env captured initialBatch file metadata fileIdx
                [0..<totalChunks metadata] totalBytesTransferred
                (startFile env initialBatch fileIdx metadata t) of
           Inl t \<Rightarrow> Inl t
         | Inr (totalBytesTransferred, t) \<Rightarrow>
             sendEach env captured initialBatch (fileIdx + 1) rest totalBytesTransferred
               (completeFile env file metadata t)))"

definition initialProgress :: "(File \<times> FileMetadata) list \<Rightarrow> (string \<times> TransferProgress) list" where
  "initialProgress validFiles =
     foldl (\<lambda>m (index, (file, metadata)).
              AList.update (id_md metadata)
                \<lparr>fileId_p = id_md metadata, fileName = sanitizedName metadata,
                 fileSize = size_md metadata, bytesTransferred = 0,
                 status = (if index = 0 then transferring else pending), error_p = None\<rparr> m)
       [] (enumerate 0 validFiles)"

definition initialBatchProgress :: "(File \<times> FileMetadata) list \<Rightarrow> nat \<Rightarrow> BatchProgress" where
  "initialBatchProgress validFiles totalSize =
     \<lparr>totalFiles = length validFiles, completedFiles = 0, totalBytes = totalSize,
      bytesTransferred_b = 0,
      currentFileId =
        (case validFiles of
           [] \<Rightarrow> None
         | (file, metadata) # _ \<Rightarrow> if id_md metadata = [] then None else Some (id_md metadata)),
      status_b = B_transferring\<rparr>"

definition completeBatch :: "SendEnv \<Rightarrow> FileTransfer \<Rightarrow> FileTransfer" where
  "completeBatch env t =
     (let t =
        (if \<not> cancelledRef_e env BeforeBatchComplete then
           (let t = emit env (batch_complete (batchId_e env)) t;
                t = t\<lparr>batchProgress := (batchProgress t)\<lparr>status_b := B_completed\<rparr>\<rparr>
            in t\<lparr>onTransferCompleteCalls := onTransferCompleteCalls t + 1\<rparr>)
         else t)
      in t\<lparr>isSending := False\<rparr>)"

definition sendFiles :: "SendEnv \<Rightarrow> File list \<Rightarrow> FileTransfer \<Rightarrow> FileTransfer" where
  "sendFiles env files t0 =
     (if files = [] then t0
      else
        (case validateFiles env files [] 0 (t0\<lparr>isSending := True\<rparr>) of
           (validFiles, totalSize, t) \<Rightarrow>
             if validFiles = [] then onError NoValidFilesToSend (t\<lparr>isSending := False\<rparr>)
             else if totalSize > MAX_SESSION_SIZE
             then onError (SessionLimitExceeded totalSize) (t\<lparr>isSending := False\<rparr>)
             else
               (let initialBatch = initialBatchProgress validFiles totalSize;
                    t = t\<lparr>fileProgress := initialProgress validFiles,
                          batchProgress := initialBatch\<rparr>;
                    t = emit env (batch_start (batchId_e env) (length validFiles) totalSize) t
                in case sendEach env (fileProgress t0) initialBatch 0 validFiles 0 t of
                     Inl t \<Rightarrow> t
                   | Inr t \<Rightarrow> completeBatch env t)))"

subsection \<open>Receiving\<close>

text \<open>
  \<open>chunks[i] = data\<close> on an array with holes, \<open>chunks.reduce\<close> over the byte lengths
  (holes count 0) and \<open>new Blob(chunks.filter(c => c !== undefined))\<close>.
\<close>

definition arraySet :: "'a option list \<Rightarrow> nat \<Rightarrow> 'a \<Rightarrow> 'a option list" where
  "arraySet xs i v =
     (if i < length xs then xs[i := Some v]
      else xs @ replicate (i - length xs) None @ [Some v])"

definition byteLengthSum :: "byte list option list \<Rightarrow> nat" where
  "byteLengthSum chunks = sum_list (map (\<lambda>c. case c of None \<Rightarrow> 0 | Some d \<Rightarrow> length d) chunks)"

definition assemble :: "byte list option list \<Rightarrow> byte list" where
  "assemble chunks = concat (map the (filter (\<lambda>c. c \<noteq> None) chunks))"

text \<open>
  The continuation of \<open>verifyChecksum(chunk.data, chunk.checksum)\<close> in the \<open>file_chunk\<close>
  case, for the array \<open>a\<close> the handler looked up.
\<close>

definition checksumContinuation :: "digest \<Rightarrow> nat \<Rightarrow> FileChunkPayload \<Rightarrow> FileTransfer \<Rightarrow> FileTransfer" where
  "checksumContinuation digest a chunk t =
     (if \<not> verifyChecksum digest (data chunk) (checksum chunk)
      then onError FileCorruptionDetected t
      else
        (let t = t\<lparr>arrays := (arrays t)(a := arraySet (arrays t a) (chunkIndex chunk) (data chunk))\<rparr>;
             received = int (byteLengthSum (arrays t a))
         in case map_of (fileMetadataRef t) (fileId chunk) of
              None \<Rightarrow> t
            | Some metadata \<Rightarrow>
                (let t = updateFileProgress (fileId chunk) (\<lambda>p. p\<lparr>bytesTransferred := received\<rparr>) t;
                     totalBytesReceived =
                       sum_list (map (\<lambda>(fid, b). int (byteLengthSum (arrays t b))) (receivedChunksRef t))
                 in t\<lparr>batchProgress := (batchProgress t)\<lparr>bytesTransferred_b := totalBytesReceived\<rparr>\<rparr>)))"

text \<open>\<open>handleMessage\<close> of the transfer hook, one equation per \<open>case\<close>.\<close>

fun handleMessage_t :: "PeerMessage \<Rightarrow> FileTransfer \<Rightarrow> FileTransfer" where
  "handleMessage_t (batch_start batch files bytes) t =
     t\<lparr>isReceiving := True,
       receivedChunksRef := [],
       fileMetadataRef := [],
       batchProgress := \<lparr>totalFiles = files, completedFiles = 0, totalBytes = bytes,
                          bytesTransferred_b = 0, currentFileId = None,
                          status_b = B_transferring\<rparr>\<rparr>"
| "handleMessage_t (file_metadata metadata) t =
     (let sanitizedMetadata =
            \<lparr>id_md = id_md metadata, name_md = sanitizeFileName (name_md metadata),
             sanitizedName = sanitizeFileName (sanitizedName metadata),
             size_md = size_md metadata, type_md = type_md metadata,
             lastModified = lastModified metadata, totalChunks = totalChunks metadata,
             hash_md = hash_md metadata\<rparr>;
          t = t\<lparr>fileMetadataRef := AList.update (id_md metadata) sanitizedMetadata (fileMetadataRef t)\<rparr>;
          t = t\<lparr>receivedChunksRef := AList.update (id_md metadata) (nextArray t) (receivedChunksRef t),
                arrays := (arrays t)(nextArray t := []),
                nextArray := nextArray t + 1\<rparr>;
          t = t\<lparr>fileProgress := AList.update (id_md metadata)
                  \<lparr>fileId_p = id_md metadata, fileName = sanitizedName sanitizedMetadata,
                   fileSize = size_md metadata, bytesTransferred = 0,
                   status = transferring, error_p = None\<rparr> (fileProgress t)\<rparr>
      in t\<lparr>batchProgress := (batchProgress t)\<lparr>currentFileId := Some (id_md metadata)\<rparr>\<rparr>)"
| "handleMessage_t (file_chunk chunk) t =
     (case map_of (receivedChunksRef t) (fileId chunk) of
        None \<Rightarrow> onError ReceivedChunkForUnknownFile t
      | Some a \<Rightarrow> t\<lparr>pendingChecksums := pendingChecksums t @ [(a, chunk)]\<rparr>)"
| "handleMessage_t (file_complete fid finalHash) t =
     (case (map_of (receivedChunksRef t) fid, map_of (fileMetadataRef t) fid) of
        (Some a, Some metadata) \<Rightarrow>
          (let blob = assemble (arrays t a);
               t = updateFileProgress fid
                     (\<lambda>p. p\<lparr>status := completed, bytesTransferred := int (size_md metadata)\<rparr>) t;
               t = t\<lparr>batchProgress := (batchProgress t)
                     \<lparr>completedFiles := completedFiles (batchProgress t) + 1\<rparr>\<rparr>;
               t = t\<lparr>receivedChunksRef := AList.delete fid (receivedChunksRef t)\<rparr>
           in t\<lparr>onFileReceivedCalls := onFileReceivedCalls t @ [(blob, metadata)]\<rparr>)
      | _ \<Rightarrow> onError FileCompletionForUnknownFile t)"
| "handleMessage_t (batch_complete batch) t =
     (let t = t\<lparr>batchProgress := (batchProgress t)\<lparr>status_b := B_completed\<rparr>\<rparr>;
          t = t\<lparr>isReceiving := False, fileMetadataRef := []\<rparr>
      in t\<lparr>onTransferCompleteCalls := onTransferCompleteCalls t + 1\<rparr>)"
| "handleMessage_t (file_error fid err) t =
     onError (ReportedBySender err)
       (updateFileProgress fid (\<lambda>p. p\<lparr>status := failed, error_p := Some err\<rparr>) t)"
| "handleMessage_t message t = t"

text \<open>
  What can happen to a receiving hook: a message is handed to \<open>handleMessage\<close>, or the
  promise of the \<open>k\<close>-th waiting \<open>verifyChecksum\<close> resolves and its continuation runs.
\<close>

datatype TransferEvent = Handle PeerMessage | ChecksumResolved nat

fun step_t :: "digest \<Rightarrow> FileTransfer \<Rightarrow> TransferEvent \<Rightarrow> FileTransfer" where
  "step_t digest t (Handle message) = handleMessage_t message t"
| "step_t digest t (ChecksumResolved k) =
     (if k < length (pendingChecksums t)
      then (case pendingChecksums t ! k of
              (a, chunk) \<Rightarrow>
                checksumContinuation digest a chunk
                  (t\<lparr>pendingChecksums := take k (pendingChecksums t) @ drop (Suc k) (pendingChecksums t)\<rparr>))
      else t)"

definition run_t :: "digest \<Rightarrow> FileTransfer \<Rightarrow> TransferEvent list \<Rightarrow> FileTransfer" where
  "run_t digest t events = foldl (step_t digest) t events"

text \<open>
  The schedule in which every checksum is verified before the next message is handled:
  each message is followed by the resolution of the promise it created, if any.
\<close>

definition promptly :: "PeerMessage list \<Rightarrow> TransferEvent list" where
  "promptly messages = concat (map (\<lambda>m. [Handle m, ChecksumResolved 0]) messages)"

section \<open>Runs and example inputs\<close>

definition runView :: "WebRTC \<times> ApprovalPrompt \<Rightarrow> ViewEvent list \<Rightarrow> WebRTC \<times> ApprovalPrompt" where
  "runView s events = foldl viewStep s events"

text \<open>
  A receiving hook that holds, for file \<open>fid\<close>, the array \<open>a\<close> filled without holes with
  \<open>blocks\<close>, the metadata, and no checksum waiting.
\<close>

definition receiving :: "FileTransfer \<Rightarrow> string \<Rightarrow> nat \<Rightarrow> FileMetadata \<Rightarrow> byte list list \<Rightarrow> bool" where
  "receiving t fid a metadata blocks \<longleftrightarrow>
     map_of (receivedChunksRef t) fid = Some a \<and> map_of (fileMetadataRef t) fid = Some metadata
     \<and> arrays t a = map Some blocks \<and> pendingChecksums t = []"

definition cleanChar :: "char \<Rightarrow> bool" where
  "cleanChar c \<longleftrightarrow> \<not> isPathSeparator c \<and> \<not> isMarkupChar c \<and> \<not> isControlChar c"

text \<open>
  A digest to run concrete transfers with: the sum of the bytes, in the leading 64 bits
  of the 256. The theorems below hold for every digest; this one instantiates them.
\<close>

definition byteSumDigest :: digest where
  "byteSumDigest bytes = push_bit 192 (of_nat (sum_list (map unat bytes)))"

text \<open>A sender whose every \<open>sendMessage\<close> succeeds and whose transfer is never cancelled.\<close>

definition exampleEnv :: "digest \<Rightarrow> SendEnv" where
  "exampleEnv digest =
     \<lparr>digest_e = digest, sendMessage_e = (\<lambda>_. True), cancelledRef_e = (\<lambda>_. False),
      generateFileId_e = (\<lambda>n. ''file-'' @ replicate n CHR ''x''), batchId_e = ''batch-0''\<rparr>"

text \<open>A file of 65537 bytes: one full chunk and one byte.\<close>

definition twoChunkFile :: File where
  "twoChunkFile =
     \<lparr>name_f = ''notes'', type_f = ''text/plain'', lastModified_f = 0, content = replicate 65537 7\<rparr>"

definition exampleMetadata :: "string \<Rightarrow> nat \<Rightarrow> FileMetadataPayload" where
  "exampleMetadata fid n =
     \<lparr>id_md = fid, name_md = ''a.txt'', sanitizedName = ''a.txt'', size_md = n,
      type_md = ''text/plain'', lastModified = 0, totalChunks = 1, hash_md = None,
      batchId = ''b'', fileIndex = 0, totalFilesInBatch = 2\<rparr>"

text \<open>The only chunk of a file, as the sender builds it: with the checksum of its data.\<close>

definition intactChunk :: "digest \<Rightarrow> string \<Rightarrow> byte list \<Rightarrow> PeerMessage" where
  "intactChunk digest fid d =
     file_chunk \<lparr>fileId = fid, chunkIndex = 0, totalChunks_c = 1, data = d,
                  checksum = generateChecksum digest d\<rparr>"



text \<open>A host that has handled three requests of peer \<open>p\<close> and had no answer from its provider.\<close>

definition hostAfterThreeRequests :: WebRTC where
  "hostAfterThreeRequests =
     run id (hostReady ''AB3D-EF7H'' None Map.empty)
       [Receive 0 (connection_request ''p'' ''ua''), Receive 1000 (connection_request ''p'' ''ua''),
        Receive 2000 (connection_request ''p'' ''ua'')]"

section \<open>Room codes\<close>

declare toString16.simps [simp del]

lemma alphabet_no_dash: "CHR ''-'' \<notin> set ROOM_CODE_ALPHABET"
  by (simp add: ROOM_CODE_ALPHABET_def)

lemma alphabet_symbol: "ROOM_CODE_ALPHABET ! (n mod length ROOM_CODE_ALPHABET) \<in> set ROOM_CODE_ALPHABET"
  by (rule nth_mem) (simp add: ROOM_CODE_ALPHABET_def)

lemma filter_take_drop:
  assumes "x \<notin> set xs"
  shows "filter (\<lambda>c. c \<noteq> x) (take n xs @ [x] @ drop n xs) = xs"
proof -
  have "filter (\<lambda>c. c \<noteq> x) (take n xs @ [x] @ drop n xs)
      = filter (\<lambda>c. c \<noteq> x) (take n xs) @ filter (\<lambda>c. c \<noteq> x) (drop n xs)"
    by simp
  also have "\<dots> = filter (\<lambda>c. c \<noteq> x) (take n xs @ drop n xs)"
    by (simp only: filter_append)
  also have "\<dots> = filter (\<lambda>c. c \<noteq> x) xs"
    by (simp only: append_take_drop_id)
  also have "\<dots> = xs"
    using assms by (induction xs) auto
  finally show ?thesis .
qed

text \<open>
  Claim C8: every generated room code has 8 characters after dash-stripping, each drawn
  from a 32-symbol alphabet without ambiguous glyphs. The alphabet the code draws from,
  which its comment calls Base32, has 31 symbols: the byte 31 does not select a
  thirty-second symbol but wraps to the first one, as the byte 0 does.
\<close>

theorem room_code_alphabet_has_31_symbols:
  "length ROOM_CODE_ALPHABET = 31
   \<and> generateSecureRoomCode (\<lambda>i. 31) = ''AAAA-AAAA''
   \<and> generateSecureRoomCode (\<lambda>i. 0) = ''AAAA-AAAA''"
  by (simp add: generateSecureRoomCode_def ROOM_CODE_ALPHABET_def ROOM_CODE_LENGTH_def upt_rec)

text \<open>
  What holds of every generated room code: it reads \<open>XXXX-XXXX\<close>, the dash-stripped code
  has \<open>ROOM_CODE_LENGTH = 8\<close> characters, each from the alphabet, whose 31 symbols are
  distinct and leave out \<open>0\<close>, \<open>O\<close>, \<open>1\<close>, \<open>I\<close> and \<open>L\<close>.
\<close>

theorem room_code_shape:
  "length (generateSecureRoomCode rnd) = 9
   \<and> generateSecureRoomCode rnd ! 4 = CHR ''-''
   \<and> length (stripDashes (generateSecureRoomCode rnd)) = ROOM_CODE_LENGTH
   \<and> set (stripDashes (generateSecureRoomCode rnd)) \<subseteq> set ROOM_CODE_ALPHABET
   \<and> distinct ROOM_CODE_ALPHABET
   \<and> set ''0O1IL'' \<inter> set ROOM_CODE_ALPHABET = {}"
proof -
  define code where "code = map (\<lambda>b. ROOM_CODE_ALPHABET ! (unat b mod length ROOM_CODE_ALPHABET)) (map rnd [0..<ROOM_CODE_LENGTH])"
  have gen: "generateSecureRoomCode rnd = take 4 code @ ''-'' @ drop 4 code"
    by (simp add: generateSecureRoomCode_def code_def Let_def)
  have len: "length code = 8" by (simp add: code_def ROOM_CODE_LENGTH_def)
  have sub: "set code \<subseteq> set ROOM_CODE_ALPHABET"
    using alphabet_symbol by (auto simp: code_def)
  then have nodash: "CHR ''-'' \<notin> set code" using alphabet_no_dash by blast
  have strip: "stripDashes (generateSecureRoomCode rnd) = code"
    unfolding gen stripDashes_def using filter_take_drop [OF nodash] by simp
  have "generateSecureRoomCode rnd ! 4 = CHR ''-''"
    unfolding gen using len by (simp add: nth_append)
  moreover have "length (generateSecureRoomCode rnd) = 9" unfolding gen using len by simp
  moreover have "set ''0O1IL'' \<inter> set ROOM_CODE_ALPHABET = {}" by (simp add: ROOM_CODE_ALPHABET_def)
  moreover have "distinct ROOM_CODE_ALPHABET" by (simp add: ROOM_CODE_ALPHABET_def)
  ultimately show ?thesis using strip len sub by (simp add: ROOM_CODE_LENGTH_def)
qed

section \<open>File names\<close>

lemma set_slice: "set (slice xs a b) \<subseteq> set xs"
  unfolding slice_def Let_def by (meson set_take_subset set_drop_subset subset_trans)

lemma set_sliceFrom: "set (sliceFrom xs a) \<subseteq> set xs"
  unfolding sliceFrom_def by (rule set_drop_subset)

lemma trim_Nil: "trim [] = []"
  by (simp add: trim_def)

lemma long_extension_not_capped:
  "length (sanitizeFileName (''a.'' @ replicate 255 CHR ''b'')) = 512"
  by code_simp

text \<open>
  Claim C7: the sanitized name has no path separator, no \<open>..\<close>, no control character, at
  most 255 characters and is not empty. The traversal sequences are removed first and the
  separators after them, so a separator between two dots leaves \<open>..\<close> behind: the name
  \<open>./.\<close> is sanitized to \<open>..\<close>. (The length cap fails too, for an extension longer than
  255 characters: \<open>long_extension_not_capped\<close>.)
\<close>

theorem sanitized_name_keeps_traversal:
  "sanitizeFileName ''./.'' = ''..''"
  by code_simp

text \<open>
  What holds of every sanitized name: no path separator, no markup character, no control
  character, and it is neither empty nor blank.
\<close>

theorem sanitized_name_clean:
  "list_all cleanChar (sanitizeFileName name) \<and> sanitizeFileName name \<noteq> []
   \<and> trim (sanitizeFileName name) \<noteq> []"
proof -
  define filtered where "filtered = filter (\<lambda>c. \<not> isControlChar c) (filter (\<lambda>c. \<not> isMarkupChar c)
      (filter (\<lambda>c. \<not> isPathSeparator c) (removeDotDot name)))"
  define truncated where "truncated =
            (if length filtered > 255 then
               (let ext = lastIndexOf filtered CHR ''.'' in
                if ext > 0 then
                  (let extension = sliceFrom filtered ext;
                       baseName = slice filtered 0 (255 - int (length extension))
                   in baseName @ extension)
                else slice filtered 0 255)
             else filtered)"
  have result: "sanitizeFileName name = (if trim truncated = [] then ''unnamed_file'' else truncated)"
    by (simp add: sanitizeFileName_def truncated_def filtered_def Let_def)
  have "\<forall>c \<in> set filtered. cleanChar c"
    by (auto simp: filtered_def cleanChar_def)
  moreover have "set truncated \<subseteq> set filtered"
    using set_slice [of filtered] set_sliceFrom [of filtered]
    by (auto simp: truncated_def Let_def)
  ultimately have clean: "list_all cleanChar truncated"
    by (auto simp: list_all_iff)
  have fallback: "list_all cleanChar ''unnamed_file''" "trim ''unnamed_file'' \<noteq> []"
    by (simp_all add: cleanChar_def isPathSeparator_def isMarkupChar_def isControlChar_def trim_def isWhiteSpace_def)
  show ?thesis
    unfolding result using clean fallback trim_Nil by auto
qed

section \<open>Checksums\<close>

lemma verify_own: "verifyChecksum digest d (generateChecksum digest d)"
  by (simp add: verifyChecksum_def)

lemma hexDigit_mem: "d < 16 \<Longrightarrow> hexDigit d \<in> set lowerHexDigits"
  unfolding hexDigit_def by (rule nth_mem) (simp add: lowerHexDigits_def)

lemma byte_hex:
  assumes "n < 256"
  shows "padStart (toString16 n) 2 CHR ''0'' = [hexDigit (n div 16), hexDigit (n mod 16)]"
proof (cases "n < 16")
  case True
  then show ?thesis by (simp add: toString16.simps [of n] padStart_def hexDigit_def lowerHexDigits_def)
next
  case False
  with assms have "n div 16 < 16" by simp
  with False show ?thesis
    by (simp add: toString16.simps [of n] toString16.simps [of "n div 16"] padStart_def)
qed

lemma length_digestBytes: "length (digestBytes w) = 32"
  by (simp add: digestBytes_def)

lemma generateChecksum_eq:
  "generateChecksum digest d =
     concat (map (\<lambda>b. [hexDigit (unat b div 16), hexDigit (unat b mod 16)]) (take 8 (digestBytes (digest d))))"
proof -
  have "unat b < 256" for b :: byte using unsigned_less [of b, where 'a = nat] by simp
  then have "(\<lambda>b :: byte. padStart (toString16 (unat b)) 2 CHR ''0'') = (\<lambda>b. [hexDigit (unat b div 16), hexDigit (unat b mod 16)])"
    using byte_hex by auto
  then show ?thesis
    by (simp add: generateChecksum_def slice_def sliceBound_def Let_def length_digestBytes)
qed

lemma length_concat_pairs: "length (concat (map (\<lambda>b. [f b, g b]) xs)) = 2 * length xs"
  by (induction xs) auto

lemma length_generateChecksum: "length (generateChecksum digest d) = 16"
  by (simp add: generateChecksum_eq length_concat_pairs length_digestBytes)

lemma hex_pairs: "set (concat (map (\<lambda>b :: byte. [hexDigit (unat b div 16), hexDigit (unat b mod 16)]) xs)) \<subseteq> set lowerHexDigits"
proof (induction xs)
  case Nil
  then show ?case by simp
next
  case (Cons b xs)
  have "unat b < 256" using unsigned_less [of b, where 'a = nat] by simp
  then have "unat b div 16 < 16" "unat b mod 16 < 16" by simp_all
  then have "hexDigit (unat b div 16) \<in> set lowerHexDigits" "hexDigit (unat b mod 16) \<in> set lowerHexDigits"
    by (simp_all only: hexDigit_mem)
  with Cons show ?case by simp
qed

lemma hex_generateChecksum: "set (generateChecksum digest d) \<subseteq> set lowerHexDigits"
  unfolding generateChecksum_eq by (rule hex_pairs)

lemma byteSumDigest_detects:
  "\<not> verifyChecksum byteSumDigest [1, 3] (generateChecksum byteSumDigest [1, 2])"
  by code_simp

text \<open>
  Claim C9: for every byte buffer \<open>d\<close> (and every digest function in the place of
  SHA-256), \<open>verifyChecksum d (generateChecksum d)\<close> is true; the checksum is exactly 16
  characters, all lower-case hexadecimal digits, namely the two digits of each of the
  first 8 bytes of the digest; and a chunk that carries the checksum of its own data
  passes the receiver's check: no error is reported and the data is stored at its index.
\<close>

theorem checksum_of_own_data_verifies:
  "verifyChecksum digest d (generateChecksum digest d)
   \<and> length (generateChecksum digest d) = 16
   \<and> set (generateChecksum digest d) \<subseteq> set lowerHexDigits
   \<and> generateChecksum digest d =
       concat (map (\<lambda>b. [hexDigit (unat b div 16), hexDigit (unat b mod 16)])
                (take 8 (digestBytes (digest d))))
   \<and> onErrorCalls_t (checksumContinuation digest a
         (chunk\<lparr>checksum := generateChecksum digest (data chunk)\<rparr>) t) = onErrorCalls_t t
   \<and> arrays (checksumContinuation digest a
         (chunk\<lparr>checksum := generateChecksum digest (data chunk)\<rparr>) t) a
       = arraySet (arrays t a) (chunkIndex chunk) (data chunk)"
proof -
  have "onErrorCalls_t (checksumContinuation digest a
         (chunk\<lparr>checksum := generateChecksum digest (data chunk)\<rparr>) t) = onErrorCalls_t t
     \<and> arrays (checksumContinuation digest a
         (chunk\<lparr>checksum := generateChecksum digest (data chunk)\<rparr>) t) a
       = arraySet (arrays t a) (chunkIndex chunk) (data chunk)"
    by (simp add: checksumContinuation_def verify_own Let_def updateFileProgress_def split: option.splits)
  then show ?thesis
    using verify_own [of digest d] length_generateChecksum [of digest d]
      hex_generateChecksum [of digest d] generateChecksum_eq [of digest d]
    by blast
qed

section \<open>Connection requests and the rate limiter\<close>

lemmas host_defs = hostReady_def run_def connectionRequested_def approvalResolved_def
  approvalContinuation_def isRateLimited_default_def isRateLimited_def recordAttempt_default_def
  recordAttempt_def clearRateLimit_def send_def sendMessage_def startHeartbeat_def
  MAX_CONNECTION_ATTEMPTS_def CONNECTION_ATTEMPT_WINDOW_MS_def cleanup_def MAX_PIN_ATTEMPTS_def
  Let_def

text \<open>
  Claim C10: the host asks the rate limiter before it records the attempt, and
  \<open>isRateLimited\<close> answers false for a key without an entry (whatever the limits), so the
  first request of a fresh peer is never denied as rate-limited: nothing is sent in
  reply, and a host with an approval provider calls it and records one attempt (any
  other instance ignores the message).
\<close>

theorem fresh_peer_not_rate_limited:
  assumes "rateLimits w peer = None"
  shows "isRateLimited now (rateLimits w) peer maxAttempts windowMs = (False, rateLimits w)
       \<and> sent (handleMessage now (connection_request peer info) w) = sent w
       \<and> (if mode w = host \<and> hasOnConnectionRequest w
          then approvalCalls (handleMessage now (connection_request peer info) w) = approvalCalls w @ [peer]
             \<and> state (connectionInfo (handleMessage now (connection_request peer info) w)) = S_awaiting_approval
             \<and> map_option attempts (rateLimits (handleMessage now (connection_request peer info) w) peer) = Some 1
          else handleMessage now (connection_request peer info) w = w)"
  using assms
  by (auto simp: connectionRequested_def isRateLimited_default_def isRateLimited_def send_def
      sendMessage_def Let_def recordAttempt_default_def recordAttempt_def split: option.splits)

theorem fresh_peer_not_rate_limited_witness:
  "rateLimits (hostReady ''AB3D-EF7H'' None Map.empty) ''p'' = None
   \<and> sent (handleMessage 0 (connection_request ''p'' ''ua'') (hostReady ''AB3D-EF7H'' None Map.empty)) = []
   \<and> approvalCalls (handleMessage 0 (connection_request ''p'' ''ua'') (hostReady ''AB3D-EF7H'' None Map.empty)) = [''p'']"
proof -
  let ?w = "hostReady ''AB3D-EF7H'' None Map.empty"
  have fresh: "rateLimits ?w ''p'' = None"
    by (simp add: hostReady_def)
  have h: "mode ?w = host" "hasOnConnectionRequest ?w" "sent ?w = []" "approvalCalls ?w = []"
    by (simp_all add: hostReady_def)
  show ?thesis
    using fresh_peer_not_rate_limited [OF fresh, where now = 0 and info = "''ua''"] fresh h by simp
qed

lemma limited_request:
  assumes "mode w = host" "hasOnConnectionRequest w" "connectionOpen w"
    and "rateLimits w peer = Some e" "MAX_CONNECTION_ATTEMPTS \<le> attempts e"
    and "now - firstAttempt e \<le> CONNECTION_ATTEMPT_WINDOW_MS"
  shows "handleMessage now (connection_request peer info) w =
         w\<lparr>sent := sent w @ [connection_denied ''Too many attempts'']\<rparr>"
  using assms
  by (auto simp: connectionRequested_def isRateLimited_default_def isRateLimited_def send_def
      sendMessage_def split: option.splits)

text \<open>Three requests of a fresh peer inside the window, none of them answered with an approval.\<close>

lemma three_requests_exhaust:
  assumes "mode w = host" "hasOnConnectionRequest w"
    and "rateLimits w peer = None" "t1 \<le> t2" "t2 \<le> t3" "t3 - t1 \<le> CONNECTION_ATTEMPT_WINDOW_MS"
  shows "rateLimits (run hashPin w [Receive t1 (connection_request peer i1),
            Receive t2 (connection_request peer i2), Receive t3 (connection_request peer i3)]) peer
         = Some \<lparr>attempts = 3, firstAttempt = t1, lastAttempt = t3, blocked = True,
                  blockedUntil = Some (t3 + 5 * 60 * 1000)\<rparr>"
  using assms
  by (simp add: run_def connectionRequested_def isRateLimited_default_def isRateLimited_def
      recordAttempt_default_def recordAttempt_def MAX_CONNECTION_ATTEMPTS_def
      CONNECTION_ATTEMPT_WINDOW_MS_def Let_def)

text \<open>
  Claim C5, as stated: once a peer has made three connection attempts inside the
  five-minute window, every further request is denied without the approval provider.
  It fails when attempts were approved, because approval clears the peer's entry: after
  three approved requests in six seconds the fourth is handed to the provider again and
  no denial is ever sent.
\<close>

theorem approved_attempts_are_not_counted:
  "approvalCalls (run id (hostReady ''AB3D-EF7H'' None Map.empty)
     [Receive 0 (connection_request ''p'' ''ua''), ApprovalResolved 1000 ''p'' True,
      Receive 2000 (connection_request ''p'' ''ua''), ApprovalResolved 3000 ''p'' True,
      Receive 4000 (connection_request ''p'' ''ua''), ApprovalResolved 5000 ''p'' True,
      Receive 6000 (connection_request ''p'' ''ua'')]) = [''p'', ''p'', ''p'', ''p'']
   \<and> sent (run id (hostReady ''AB3D-EF7H'' None Map.empty)
     [Receive 0 (connection_request ''p'' ''ua''), ApprovalResolved 1000 ''p'' True,
      Receive 2000 (connection_request ''p'' ''ua''), ApprovalResolved 3000 ''p'' True,
      Receive 4000 (connection_request ''p'' ''ua''), ApprovalResolved 5000 ''p'' True,
      Receive 6000 (connection_request ''p'' ''ua'')])
     = [connection_approved, connection_approved, connection_approved]"
  by (simp add: host_defs)

text \<open>
  Claim C5, amended: for a peer whose entry in the limiter counts three or more attempts
  (attempts since the last approval, which clears the entry), every connection request
  the host handles within five minutes of the first of them is answered with
  \<open>connection_denied\<close> and changes nothing else: the approval provider is not called,
  the state and the entry stay as they are.
\<close>

theorem exhausted_attempts_are_denied:
  assumes "mode w = host" "hasOnConnectionRequest w" "connectionOpen w"
    and "rateLimits w peer = Some e" "MAX_CONNECTION_ATTEMPTS \<le> attempts e"
    and "\<forall>now \<in> set moments. now - firstAttempt e \<le> CONNECTION_ATTEMPT_WINDOW_MS"
  shows "run hashPin w (map (\<lambda>now. Receive now (connection_request peer info)) moments) =
         w\<lparr>sent := sent w @ replicate (length moments) (connection_denied ''Too many attempts'')\<rparr>"
  using assms
proof (induction moments arbitrary: w)
  case Nil
  then show ?case by (simp add: run_def)
next
  case (Cons now moments)
  let ?w = "w\<lparr>sent := sent w @ [connection_denied ''Too many attempts'']\<rparr>"
  have first: "handleMessage now (connection_request peer info) w = ?w"
    using Cons.prems by (intro limited_request) auto
  have "run hashPin ?w (map (\<lambda>now. Receive now (connection_request peer info)) moments) =
        ?w\<lparr>sent := sent ?w @ replicate (length moments) (connection_denied ''Too many attempts'')\<rparr>"
    using Cons.prems by (intro Cons.IH) auto
  then show ?case using first by (simp add: run_def replicate_app_Cons_same)
qed

theorem exhausted_attempts_are_denied_witness:
  "rateLimits hostAfterThreeRequests ''p''
     = Some \<lparr>attempts = 3, firstAttempt = 0, lastAttempt = 2000, blocked = True,
              blockedUntil = Some 302000\<rparr>
   \<and> approvalCalls (run id hostAfterThreeRequests
        (map (\<lambda>now. Receive now (connection_request ''p'' ''ua'')) [3000, 299999, 300000]))
       = [''p'', ''p'', ''p'']
   \<and> sent (run id hostAfterThreeRequests
        (map (\<lambda>now. Receive now (connection_request ''p'' ''ua'')) [3000, 299999, 300000]))
       = [connection_denied ''Too many attempts'', connection_denied ''Too many attempts'',
          connection_denied ''Too many attempts'']"
proof -
  have e: "rateLimits hostAfterThreeRequests ''p''
     = Some \<lparr>attempts = 3, firstAttempt = 0, lastAttempt = 2000, blocked = True,
              blockedUntil = Some 302000\<rparr>"
    by (simp add: hostAfterThreeRequests_def host_defs)
  have h: "mode hostAfterThreeRequests = host" "hasOnConnectionRequest hostAfterThreeRequests"
    "connectionOpen hostAfterThreeRequests"
    by (simp_all add: hostAfterThreeRequests_def host_defs)
  have a: "approvalCalls hostAfterThreeRequests = [''p'', ''p'', ''p'']" "sent hostAfterThreeRequests = []"
    by (simp_all add: hostAfterThreeRequests_def host_defs)
  show ?thesis
    using exhausted_attempts_are_denied [OF h e, of "[3000, 299999, 300000]" id "''ua''"] e a
    by (simp add: MAX_CONNECTION_ATTEMPTS_def CONNECTION_ATTEMPT_WINDOW_MS_def)
qed

section \<open>The approval timeout\<close>

lemmas prompt_defs = handleConnectionRequest_def intervalTick_def modalHandleApprove_def
  modalHandleDeny_def commit_def effects_def resetEffect_def autoDenyEffect_def handleDeny_def
  handleApprove_def countDown_def intervalRunning_def isOpen_def

text \<open>
  The effects of the prompt settle: after the two rounds of \<open>commit\<close>, a third round
  changes nothing and gives no answer.
\<close>

lemma commit_settles:
  "(let (ui1, answers1) = effects previous replaced ui;
        (ui2, answers2) = effects ui (pendingApproval ui1 \<noteq> pendingApproval ui) ui1
    in effects ui1 (pendingApproval ui2 \<noteq> pendingApproval ui1) ui2) = (fst (commit previous replaced ui), [])"
  by (auto simp: commit_def effects_def resetEffect_def autoDenyEffect_def handleDeny_def isOpen_def
      Let_def split: option.splits prod.splits)














text \<open>
  In every state the receiving view reaches from the closed prompt, by messages, ticks
  and clicks in any order, a prompt that is open has not expired and has time left.
\<close>

lemma prompt_step:
  assumes "pendingApproval ui = None \<or> \<not> isExpired ui \<and> 0 < timeRemaining ui"
  shows "pendingApproval (snd (viewStep (w, ui) e)) = None
       \<or> \<not> isExpired (snd (viewStep (w, ui) e)) \<and> 0 < timeRemaining (snd (viewStep (w, ui) e))"
  using assms
  by (cases e) (auto simp: prompt_defs resolveWith_def Let_def APPROVAL_TIMEOUT_MS_def split: option.splits if_splits)

theorem prompt_reachable_states:
  "pendingApproval (snd (runView (w, closedPrompt) events)) = None
   \<or> \<not> isExpired (snd (runView (w, closedPrompt) events))
     \<and> 0 < timeRemaining (snd (runView (w, closedPrompt) events))"
proof (induction events rule: rev_induct)
  case Nil
  then show ?case by (simp add: runView_def closedPrompt_def)
next
  case (snoc e events)
  obtain w' ui' where s: "runView (w, closedPrompt) events = (w', ui')" by (cases "runView (w, closedPrompt) events")
  have "runView (w, closedPrompt) (events @ [e]) = viewStep (w', ui') e"
    using s by (simp add: runView_def)
  then show ?case using prompt_step [of ui' w' e] snoc s by simp
qed

theorem prompt_reachable_states_witness:
  "snd (runView (hostReady ''AB3D-EF7H'' None Map.empty, closedPrompt)
     [Incoming 0 (connection_request ''p'' ''ua''), IntervalTick 1000, ClickDeny 1500,
      Incoming 2000 (connection_request ''q'' ''ua''), IntervalTick 3000])
   = \<lparr>pendingApproval = Some ''q'', timeRemaining = 29, isExpired = False\<rparr>"
  using prompt_reachable_states [of "hostReady ''AB3D-EF7H'' None Map.empty"
      "[Incoming 0 (connection_request ''p'' ''ua''), IntervalTick 1000, ClickDeny 1500,
        Incoming 2000 (connection_request ''q'' ''ua''), IntervalTick 3000]"]
  by (simp add: runView_def closedPrompt_def prompt_defs resolveWith_def APPROVAL_TIMEOUT_MS_def host_defs)

section \<open>PIN attempts\<close>

text \<open>
  Claim C6: after three failed PIN attempts the host sends \<open>connection_denied\<close> and tears
  the session down. The host compares the \<open>attemptNumber\<close> the message carries, not a
  count of its own, with \<open>MAX_PIN_ATTEMPTS\<close>: four wrong attempts that each say they are
  the first get four times \<open>pin_invalid\<close> with two attempts remaining, and the
  connection, the PIN and the session stay.
\<close>

theorem pin_attempts_not_counted_by_host:
  "sent (run id (hostReady ''AB3D-EF7H'' (Some ''1f3a'') Map.empty)
     [Receive 0 (pin_attempt ''bad0'' 1), Receive 1000 (pin_attempt ''bad1'' 1),
      Receive 2000 (pin_attempt ''bad2'' 1), Receive 3000 (pin_attempt ''bad3'' 1)])
     = [pin_invalid 2, pin_invalid 2, pin_invalid 2, pin_invalid 2]
   \<and> connectionOpen (run id (hostReady ''AB3D-EF7H'' (Some ''1f3a'') Map.empty)
     [Receive 0 (pin_attempt ''bad0'' 1), Receive 1000 (pin_attempt ''bad1'' 1),
      Receive 2000 (pin_attempt ''bad2'' 1), Receive 3000 (pin_attempt ''bad3'' 1)])
   \<and> pinHashRef (run id (hostReady ''AB3D-EF7H'' (Some ''1f3a'') Map.empty)
     [Receive 0 (pin_attempt ''bad0'' 1), Receive 1000 (pin_attempt ''bad1'' 1),
      Receive 2000 (pin_attempt ''bad2'' 1), Receive 3000 (pin_attempt ''bad3'' 1)]) = Some ''1f3a''
   \<and> roomCodeRef (run id (hostReady ''AB3D-EF7H'' (Some ''1f3a'') Map.empty)
     [Receive 0 (pin_attempt ''bad0'' 1), Receive 1000 (pin_attempt ''bad1'' 1),
      Receive 2000 (pin_attempt ''bad2'' 1), Receive 3000 (pin_attempt ''bad3'' 1)]) = Some ''AB3D-EF7H''"
  by (simp add: host_defs)

text \<open>
  With the attempt numbers an unmodified client sends (1, 2, 3) the third wrong attempt
  is answered with \<open>connection_denied\<close>, and \<open>cleanup\<close> closes the connection and forgets
  the PIN and the room.
\<close>

theorem numbered_pin_attempts_are_denied:
  "sent (run id (hostReady ''AB3D-EF7H'' (Some ''1f3a'') Map.empty)
     [Receive 0 (pin_attempt ''bad0'' 1), Receive 1000 (pin_attempt ''bad1'' 2),
      Receive 2000 (pin_attempt ''bad2'' 3)])
     = [pin_invalid 2, pin_invalid 1, connection_denied ''Too many PIN attempts'']
   \<and> \<not> connectionOpen (run id (hostReady ''AB3D-EF7H'' (Some ''1f3a'') Map.empty)
     [Receive 0 (pin_attempt ''bad0'' 1), Receive 1000 (pin_attempt ''bad1'' 2),
      Receive 2000 (pin_attempt ''bad2'' 3)])
   \<and> roomCodeRef (run id (hostReady ''AB3D-EF7H'' (Some ''1f3a'') Map.empty)
     [Receive 0 (pin_attempt ''bad0'' 1), Receive 1000 (pin_attempt ''bad1'' 2),
      Receive 2000 (pin_attempt ''bad2'' 3)]) = None"
  by (simp add: host_defs)

section \<open>Chunks: sending\<close>

lemma CHUNK_SIZE_pos: "0 < CHUNK_SIZE"
  by (simp add: CHUNK_SIZE_def)

lemma real_CHUNK_SIZE: "real CHUNK_SIZE = 65536"
  by (simp add: CHUNK_SIZE_def)

text \<open>\<open>Math.ceil\<close> of the quotient, in natural-number arithmetic.\<close>

lemma totalChunks_div: "nat \<lceil>real n / real CHUNK_SIZE\<rceil> = (n + CHUNK_SIZE - 1) div CHUNK_SIZE"
proof -
  have "\<lceil>real n / real CHUNK_SIZE\<rceil> = - \<lfloor>real_of_int (- int n) / real_of_int (int CHUNK_SIZE)\<rfloor>"
    by (simp add: ceiling_def)
  also have "\<dots> = - ((- int n) div int CHUNK_SIZE)"
    by (simp only: floor_divide_of_int_eq)
  finally have "\<lceil>real n / real CHUNK_SIZE\<rceil> = - ((- int n) div int CHUNK_SIZE)" .
  moreover have "- ((- int n) div int CHUNK_SIZE) = int ((n + CHUNK_SIZE - 1) div CHUNK_SIZE)"
    unfolding CHUNK_SIZE_def by (simp add: zdiv_int)
  ultimately show ?thesis by simp
qed

lemma chunks_cover: "n \<le> nat \<lceil>real n / real CHUNK_SIZE\<rceil> * CHUNK_SIZE"
proof -
  let ?m = "n + CHUNK_SIZE - 1"
  have "?m div CHUNK_SIZE * CHUNK_SIZE + ?m mod CHUNK_SIZE = ?m" by (rule div_mult_mod_eq)
  moreover have "?m mod CHUNK_SIZE < CHUNK_SIZE" using CHUNK_SIZE_pos by (rule mod_less_divisor)
  ultimately have "n \<le> ?m div CHUNK_SIZE * CHUNK_SIZE" by linarith
  then show ?thesis by (simp only: totalChunks_div)
qed

lemma slice_nat:
  "slice xs (int a) (int b) = take (min b (length xs) - min a (length xs)) (drop (min a (length xs)) xs)"
  by (simp add: slice_def sliceBound_def Let_def)

lemma slice_chunk:
  "slice xs (int (k * c)) (int (min (k * c + c) (length xs))) = take c (drop (k * c) xs)"
proof (cases "k * c \<le> length xs")
  case True
  have "slice xs (int (k * c)) (int (min (k * c + c) (length xs)))
      = take (min (min (k * c + c) (length xs)) (length xs) - min (k * c) (length xs))
          (drop (min (k * c) (length xs)) xs)"
    by (rule slice_nat)
  also have "\<dots> = take (min c (length (drop (k * c) xs))) (drop (k * c) xs)"
    using True by (simp add: min_def)
  also have "\<dots> = take c (drop (k * c) xs)" by (simp add: min_def)
  finally show ?thesis .
next
  case False
  have "slice xs (int (k * c)) (int (min (k * c + c) (length xs)))
      = take (min (min (k * c + c) (length xs)) (length xs) - min (k * c) (length xs))
          (drop (min (k * c) (length xs)) xs)"
    by (rule slice_nat)
  with False show ?thesis by (simp add: min_def)
qed

lemma concat_chunks: "concat (map (\<lambda>k. take c (drop (k * c) xs)) [0..<n]) = take (n * c) xs"
proof (induction n)
  case 0
  then show ?case by simp
next
  case (Suc n)
  have "take (Suc n * c) xs = take (n * c + c) xs" by (simp add: add.commute)
  also have "\<dots> = take (n * c) xs @ take c (drop (n * c) xs)" by (rule take_add)
  finally show ?case using Suc by simp
qed

lemma chunkMessage_eq:
  "chunkMessage digest file metadata k =
     file_chunk \<lparr>fileId = id_md metadata, chunkIndex = k, totalChunks_c = totalChunks metadata,
       data = take CHUNK_SIZE (drop (k * CHUNK_SIZE) (content file)),
       checksum = generateChecksum digest (take CHUNK_SIZE (drop (k * CHUNK_SIZE) (content file)))\<rparr>"
  by (simp only: chunkMessage_def Let_def slice_chunk)

lemma outbox_updateFileProgress [simp]: "outbox (updateFileProgress fid f t) = outbox t"
  by (simp add: updateFileProgress_def split: option.splits)

lemma batchProgress_updateFileProgress [simp]: "batchProgress (updateFileProgress fid f t) = batchProgress t"
  by (simp add: updateFileProgress_def split: option.splits)

lemma fileProgress_updateFileProgress:
  "fileProgress (updateFileProgress fid f t) =
     (case map_of (fileProgress t) fid of None \<Rightarrow> fileProgress t
      | Some p \<Rightarrow> AList.update fid (f p) (fileProgress t))"
  by (simp add: updateFileProgress_def split: option.splits)

lemma sendChunks_outbox:
  assumes "sendMessage_e env = (\<lambda>_. True)" "cancelledRef_e env = (\<lambda>_. False)"
  shows "\<not> isl (sendChunks env captured initialBatch file metadata fileIdx indices acc t)
       \<and> outbox (snd (projr (sendChunks env captured initialBatch file metadata fileIdx indices acc t)))
           = outbox t @ map (chunkMessage (digest_e env) file metadata) indices"
proof (induction indices arbitrary: acc t)
  case Nil
  then show ?case by simp
next
  case (Cons k indices)
  show ?case
    using assms by (simp add: chunkSent_def Let_def Cons.IH)
qed

lemma sendChunks_all:
  assumes "sendMessage_e env = (\<lambda>_. True)" "cancelledRef_e env = (\<lambda>_. False)"
  shows "\<exists>acc' t'. sendChunks env captured initialBatch file metadata fileIdx indices acc t = Inr (acc', t')
            \<and> outbox t' = outbox t @ map (chunkMessage (digest_e env) file metadata) indices"
  using sendChunks_outbox [OF assms, of captured initialBatch "file" metadata fileIdx indices acc t]
  by (cases "sendChunks env captured initialBatch file metadata fileIdx indices acc t") auto

text \<open>
  The accounting of the chunk loop when the captured map has no entry for the file (its
  identifier is new): every chunk adds the bytes of the file sent so far, not the bytes
  of the chunk, to the running total.
\<close>

lemma sendChunks_progress:
  assumes "sendMessage_e env = (\<lambda>_. True)" "cancelledRef_e env = (\<lambda>_. False)"
    and "map_of captured (id_md metadata) = None"
    and "map_of (fileProgress t) (id_md metadata) = Some p"
  shows "\<not> isl (sendChunks env captured initialBatch file metadata fileIdx indices acc t)
     \<and> fst (projr (sendChunks env captured initialBatch file metadata fileIdx indices acc t))
         = acc + sum_list (map (\<lambda>k. int (min (k * CHUNK_SIZE + CHUNK_SIZE) (length (content file)))) indices)
     \<and> batchProgress (snd (projr (sendChunks env captured initialBatch file metadata fileIdx indices acc t)))
         = (if indices = [] then batchProgress t
            else (batchProgress t)\<lparr>bytesTransferred_b :=
                   acc + sum_list (map (\<lambda>k. int (min (k * CHUNK_SIZE + CHUNK_SIZE) (length (content file)))) indices)\<rparr>)
     \<and> fileProgress (snd (projr (sendChunks env captured initialBatch file metadata fileIdx indices acc t)))
         = (if indices = [] then fileProgress t
            else AList.update (id_md metadata)
                   (p\<lparr>bytesTransferred := int (min (last indices * CHUNK_SIZE + CHUNK_SIZE) (length (content file)))\<rparr>)
                   (fileProgress t))"
  using assms(4)
proof (induction indices arbitrary: acc t p)
  case Nil
  then show ?case by simp
next
  case (Cons k indices)
  let ?bytes = "int (min (k * CHUNK_SIZE + CHUNK_SIZE) (length (content file)))"
  let ?t = "t\<lparr>outbox := outbox t @ [chunkMessage (digest_e env) file metadata k],
              fileProgress := AList.update (id_md metadata) (p\<lparr>bytesTransferred := ?bytes\<rparr>) (fileProgress t),
              batchProgress := (batchProgress t)\<lparr>bytesTransferred_b := acc + ?bytes\<rparr>,
              onProgressCalls := onProgressCalls t @
                      [(\<lparr>fileId_p = id_md metadata, fileName = sanitizedName metadata,
                         fileSize = size_md metadata, bytesTransferred = ?bytes,
                         status = transferring, error_p = None\<rparr>,
                        initialBatch\<lparr>bytesTransferred_b := acc + ?bytes\<rparr>)]\<rparr>"
  have unfold: "sendChunks env captured initialBatch file metadata fileIdx (k # indices) acc t
      = sendChunks env captured initialBatch file metadata fileIdx indices (acc + ?bytes) ?t"
    using assms(1-3) Cons.prems by (simp add: chunkSent_def Let_def updateFileProgress_def)
  have entry: "map_of (fileProgress ?t) (id_md metadata) = Some (p\<lparr>bytesTransferred := ?bytes\<rparr>)"
    by (simp add: update_conv')
  note IH = Cons.IH [OF entry, of "acc + ?bytes"]
  show ?case
    unfolding unfold using IH by (simp add: Let_def)
qed

lemma sendChunks_fields:
  assumes "sendMessage_e env = (\<lambda>_. True)" "cancelledRef_e env = (\<lambda>_. False)"
    and "map_of captured (id_md metadata) = None"
    and "map_of (fileProgress t) (id_md metadata) = Some p"
    and "indices \<noteq> []"
  shows "fileProgress (snd (projr (sendChunks env captured initialBatch file metadata fileIdx indices acc t)))
         = AList.update (id_md metadata)
                   (p\<lparr>bytesTransferred := int (min (last indices * CHUNK_SIZE + CHUNK_SIZE) (length (content file)))\<rparr>)
                   (fileProgress t)"
    and "batchProgress (snd (projr (sendChunks env captured initialBatch file metadata fileIdx indices acc t)))
         = (batchProgress t)\<lparr>bytesTransferred_b :=
                   acc + sum_list (map (\<lambda>k. int (min (k * CHUNK_SIZE + CHUNK_SIZE) (length (content file)))) indices)\<rparr>"
  using sendChunks_progress [OF assms(1-4), of initialBatch "file" fileIdx indices acc] assms(5) by simp_all

lemma emit_always: "sendMessage_e env = (\<lambda>_. True) \<Longrightarrow> emit env m t = t\<lparr>outbox := outbox t @ [m]\<rparr>"
  by (simp add: emit_def)

lemma startFile_fields:
  assumes "sendMessage_e env = (\<lambda>_. True)"
  shows "fileProgress (startFile env ib fi md t) =
           (case map_of (fileProgress t) (id_md md) of None \<Rightarrow> fileProgress t
            | Some p \<Rightarrow> AList.update (id_md md) (p\<lparr>status := transferring\<rparr>) (fileProgress t))"
    and "batchProgress (startFile env ib fi md t) = (batchProgress t)\<lparr>currentFileId := Some (id_md md)\<rparr>"
    and "outbox (startFile env ib fi md t) = outbox t @ [file_metadata (metadataPayload (batchId_e env) fi (totalFiles ib) md)]"
  using assms
  by (simp_all add: startFile_def Let_def emit_always fileProgress_updateFileProgress split: option.splits)

lemma completeFile_fields:
  assumes "sendMessage_e env = (\<lambda>_. True)"
  shows "fileProgress (completeFile env file md t) =
           (case map_of (fileProgress t) (id_md md) of None \<Rightarrow> fileProgress t
            | Some p \<Rightarrow> AList.update (id_md md)
                (p\<lparr>status := completed, bytesTransferred := int (length (content file))\<rparr>) (fileProgress t))"
    and "batchProgress (completeFile env file md t) = (batchProgress t)\<lparr>completedFiles := completedFiles (batchProgress t) + 1\<rparr>"
    and "outbox (completeFile env file md t) = outbox t @ [file_complete (id_md md) (case hash_md md of None \<Rightarrow> [] | Some h \<Rightarrow> h)]"
  using assms
  by (simp_all add: completeFile_def Let_def emit_always fileProgress_updateFileProgress split: option.splits)

lemma completeBatch_fields:
  assumes "sendMessage_e env = (\<lambda>_. True)" "cancelledRef_e env = (\<lambda>_. False)"
  shows "fileProgress (completeBatch env t) = fileProgress t"
    and "batchProgress (completeBatch env t) = (batchProgress t)\<lparr>status_b := B_completed\<rparr>"
    and "outbox (completeBatch env t) = outbox t @ [batch_complete (batchId_e env)]"
  using assms by (simp_all add: completeBatch_def Let_def emit_always)

lemma sendEach_single:
  assumes "sendMessage_e env = (\<lambda>_. True)" "cancelledRef_e env = (\<lambda>_. False)"
  shows "sendEach env captured ib fi [(file, md)] acc t =
     Inr (completeFile env file md
            (snd (projr (sendChunks env captured ib file md fi [0..<totalChunks md] acc (startFile env ib fi md t)))))"
  using sendChunks_outbox [OF assms, of captured ib "file" md fi "[0..<totalChunks md]" acc "startFile env ib fi md t"] assms
  by (cases "sendChunks env captured ib file md fi [0..<totalChunks md] acc (startFile env ib fi md t)") auto

text \<open>
  \<open>sendFiles\<close> on one valid file whose identifier the captured map does not hold: the
  progress entry it ends with, the batch counter it ends with, and the messages it sends.
\<close>

lemma sendFiles_single:
  assumes "sendMessage_e env = (\<lambda>_. True)" "cancelledRef_e env = (\<lambda>_. False)"
    and "validateFile file = []"
    and "length (content file) \<le> MAX_SESSION_SIZE"
    and "map_of (fileProgress t0) (generateFileId_e env 0) = None"
  shows "fileProgress (sendFiles env [file] t0) =
           [(generateFileId_e env 0,
             \<lparr>fileId_p = generateFileId_e env 0, fileName = sanitizeFileName (name_f file),
              fileSize = length (content file), bytesTransferred = int (length (content file)),
              status = completed, error_p = None\<rparr>)]"
    and "bytesTransferred_b (batchProgress (sendFiles env [file] t0)) =
           sum_list (map (\<lambda>k. int (min (k * CHUNK_SIZE + CHUNK_SIZE) (length (content file))))
             [0..<nat \<lceil>real (length (content file)) / real CHUNK_SIZE\<rceil>])"
    and "outbox (sendFiles env [file] t0) = outbox t0 @
           [batch_start (batchId_e env) 1 (length (content file)),
            file_metadata (metadataPayload (batchId_e env) 0 1
              (createFileMetadata (digest_e env) (generateFileId_e env 0) file))]
           @ map (chunkMessage (digest_e env) file (createFileMetadata (digest_e env) (generateFileId_e env 0) file))
               [0..<nat \<lceil>real (length (content file)) / real CHUNK_SIZE\<rceil>]
           @ [file_complete (generateFileId_e env 0) (generateChecksum (digest_e env) (slice (content file) 0 (int CHUNK_SIZE))),
              batch_complete (batchId_e env)]"
proof -
  let ?md = "createFileMetadata (digest_e env) (generateFileId_e env 0) file"
  let ?fid = "generateFileId_e env 0"
  have nonempty: "content file \<noteq> []"
    using assms(3) by (auto simp: validateFile_def split: if_splits)
  have md: "id_md ?md = ?fid" "totalChunks ?md = nat \<lceil>real (length (content file)) / real CHUNK_SIZE\<rceil>"
     "sanitizedName ?md = sanitizeFileName (name_f file)" "size_md ?md = length (content file)"
     "hash_md ?md = Some (generateChecksum (digest_e env) (slice (content file) 0 (int CHUNK_SIZE)))"
    by (simp_all add: createFileMetadata_def)
  have chunks: "[0..<nat \<lceil>real (length (content file)) / real CHUNK_SIZE\<rceil>] \<noteq> []"
    using chunks_cover [of "length (content file)"] nonempty by auto
  have validated: "validateFiles env [file] [] 0 t = ([(file, ?md)], length (content file), t)" for t
    using assms(3) by (simp add: Let_def)
  let ?p0 = "\<lparr>fileId_p = ?fid, fileName = sanitizeFileName (name_f file),
              fileSize = length (content file), bytesTransferred = 0,
              status = transferring, error_p = None\<rparr>"
  have ip: "initialProgress [(file, ?md)] = [(?fid, ?p0)]"
    by (simp add: initialProgress_def md)
  let ?ib = "initialBatchProgress [(file, ?md)] (length (content file))"
  let ?t3 = "emit env (batch_start (batchId_e env) (length [(file, ?md)]) (length (content file)))
               (t0\<lparr>isSending := True, fileProgress := initialProgress [(file, ?md)], batchProgress := ?ib\<rparr>)"
  define r where "r = snd (projr (sendChunks env (fileProgress t0) ?ib file ?md 0 [0..<totalChunks ?md] 0 (startFile env ?ib 0 ?md ?t3)))"
  have result: "sendFiles env [file] t0 = completeBatch env (completeFile env file ?md r)"
    unfolding r_def using assms(4)
    by (simp add: sendFiles_def validated Let_def sendEach_single [OF assms(1,2)]
        del: sendEach.simps validateFiles.simps)
  have started: "map_of (fileProgress (startFile env ?ib 0 ?md ?t3)) (id_md ?md) = Some ?p0"
    by (simp add: startFile_fields [OF assms(1)] emit_always [OF assms(1)] ip md)
  have captured: "map_of (fileProgress t0) (id_md ?md) = None"
    using assms(5) by (simp add: md)
  note sc = sendChunks_fields [OF assms(1,2) captured started chunks [folded md(2)], of ?ib "file" 0 0, folded r_def]
  note so = sendChunks_outbox [OF assms(1,2), of "fileProgress t0" ?ib "file" ?md 0 "[0..<totalChunks ?md]" 0 "startFile env ?ib 0 ?md ?t3", folded r_def]
  show "fileProgress (sendFiles env [file] t0) =
           [(generateFileId_e env 0,
             \<lparr>fileId_p = generateFileId_e env 0, fileName = sanitizeFileName (name_f file),
              fileSize = length (content file), bytesTransferred = int (length (content file)),
              status = completed, error_p = None\<rparr>)]"
    unfolding result
    by (simp add: completeBatch_fields [OF assms(1,2)] completeFile_fields [OF assms(1)] sc(1)
        startFile_fields [OF assms(1)] emit_always [OF assms(1)] ip md update_conv')
  show "bytesTransferred_b (batchProgress (sendFiles env [file] t0)) =
           sum_list (map (\<lambda>k. int (min (k * CHUNK_SIZE + CHUNK_SIZE) (length (content file))))
             [0..<nat \<lceil>real (length (content file)) / real CHUNK_SIZE\<rceil>])"
    unfolding result
    by (simp add: completeBatch_fields [OF assms(1,2)] completeFile_fields [OF assms(1)] sc(2) md)
  show "outbox (sendFiles env [file] t0) = outbox t0 @
           [batch_start (batchId_e env) 1 (length (content file)),
            file_metadata (metadataPayload (batchId_e env) 0 1
              (createFileMetadata (digest_e env) (generateFileId_e env 0) file))]
           @ map (chunkMessage (digest_e env) file (createFileMetadata (digest_e env) (generateFileId_e env 0) file))
               [0..<nat \<lceil>real (length (content file)) / real CHUNK_SIZE\<rceil>]
           @ [file_complete (generateFileId_e env 0) (generateChecksum (digest_e env) (slice (content file) 0 (int CHUNK_SIZE))),
              batch_complete (batchId_e env)]"
    unfolding result using so
    by (simp add: completeBatch_fields [OF assms(1,2)] completeFile_fields [OF assms(1)]
        startFile_fields [OF assms(1)] emit_always [OF assms(1)] md initialBatchProgress_def)
qed

lemma twoChunkFile_valid: "validateFile twoChunkFile = []"
  by (simp add: validateFile_def twoChunkFile_def MAX_FILE_SIZE_def isBlockedExtension_def
      getFileExtension_def lastIndexOf_def upt_rec [of _ 5] Let_def BLOCKED_EXTENSIONS_def)

lemma twoChunkFile_size: "length (content twoChunkFile) = 65537"
  by (simp add: twoChunkFile_def)

lemma twoChunkFile_sent:
  "sumFileBytes (sendFiles (exampleEnv digest) [twoChunkFile] initialTransfer) = 65537
   \<and> bytesTransferred_b (batchProgress (sendFiles (exampleEnv digest) [twoChunkFile] initialTransfer)) = 131073"
proof -
  have env: "sendMessage_e (exampleEnv digest) = (\<lambda>_. True)" "cancelledRef_e (exampleEnv digest) = (\<lambda>_. False)"
    by (simp_all add: exampleEnv_def)
  have ok: "length (content twoChunkFile) \<le> MAX_SESSION_SIZE"
    by (simp add: twoChunkFile_size MAX_SESSION_SIZE_def)
  have fresh: "map_of (fileProgress initialTransfer) (generateFileId_e (exampleEnv digest) 0) = None"
    by (simp add: initialTransfer_def)
  have n: "[0..<nat \<lceil>real (length (content twoChunkFile)) / real CHUNK_SIZE\<rceil>] = [0, 1]"
    by (simp add: totalChunks_div twoChunkFile_size CHUNK_SIZE_def upt_rec)
  have upt2: "[0..<2::nat] = [0, 1]" by (simp add: upt_rec)
  note s = sendFiles_single [OF env twoChunkFile_valid ok fresh]
  show ?thesis
    by (simp add: sumFileBytes_def s(1,2) n twoChunkFile_size CHUNK_SIZE_def upt2)
qed

section \<open>Chunks: receiving\<close>

lemma run_t_append: "run_t d t (xs @ ys) = run_t d (run_t d t xs) ys"
  by (simp add: run_t_def)

lemma run_t_Cons: "run_t d t (e # es) = run_t d (step_t d t e) es"
  by (simp add: run_t_def)

lemma run_t_Nil: "run_t d t [] = t"
  by (simp add: run_t_def)

lemma promptly_append: "promptly (xs @ ys) = promptly xs @ promptly ys"
  by (simp add: promptly_def)

lemma promptly_Cons: "promptly (m # ms) = Handle m # ChecksumResolved 0 # promptly ms"
  by (simp add: promptly_def)

lemma promptly_Nil: "promptly [] = []"
  by (simp add: promptly_def)

lemmas recv_defs = run_t_Cons run_t_Nil promptly_Cons promptly_Nil checksumContinuation_def verify_own
  updateFileProgress_def onError_def initialTransfer_def Let_def arraySet_def byteLengthSum_def
  assemble_def sumFileBytes_def progressConsistent_def

lemma assemble_Some: "assemble (map Some blocks) = concat blocks"
  by (induction blocks) (simp_all add: assemble_def)

lemma receive_metadata:
  assumes "pendingChecksums r = []"
  shows "receiving (run_t digest r (promptly [file_metadata payload])) (id_md payload) (nextArray r)
           \<lparr>id_md = id_md payload, name_md = sanitizeFileName (name_md payload),
            sanitizedName = sanitizeFileName (sanitizedName payload), size_md = size_md payload,
            type_md = type_md payload, lastModified = lastModified payload,
            totalChunks = totalChunks payload, hash_md = hash_md payload\<rparr> []"
    and "onFileReceivedCalls (run_t digest r (promptly [file_metadata payload])) = onFileReceivedCalls r"
  using assms
  by (simp_all add: receiving_def run_t_Cons run_t_Nil promptly_Cons promptly_Nil Let_def update_conv')

lemma receive_chunk:
  assumes "receiving t fid a metadata blocks"
  shows "receiving (run_t digest t (promptly
           [file_chunk \<lparr>fileId = fid, chunkIndex = length blocks, totalChunks_c = n, data = d,
                         checksum = generateChecksum digest d\<rparr>])) fid a metadata (blocks @ [d])"
    and "onFileReceivedCalls (run_t digest t (promptly
           [file_chunk \<lparr>fileId = fid, chunkIndex = length blocks, totalChunks_c = n, data = d,
                         checksum = generateChecksum digest d\<rparr>])) = onFileReceivedCalls t"
  using assms
  by (simp_all add: receiving_def run_t_Cons run_t_Nil promptly_Cons promptly_Nil Let_def
      checksumContinuation_def verify_own arraySet_def updateFileProgress_def split: option.splits)

lemma receive_chunks:
  assumes "receiving t fid a metadata []"
  shows "receiving (run_t digest t (promptly
           (map (\<lambda>k. file_chunk \<lparr>fileId = fid, chunkIndex = k, totalChunks_c = n, data = f k,
                                   checksum = generateChecksum digest (f k)\<rparr>) [0..<m]))) fid a metadata (map f [0..<m])
       \<and> onFileReceivedCalls (run_t digest t (promptly
           (map (\<lambda>k. file_chunk \<lparr>fileId = fid, chunkIndex = k, totalChunks_c = n, data = f k,
                                   checksum = generateChecksum digest (f k)\<rparr>) [0..<m]))) = onFileReceivedCalls t"
proof (induction m)
  case 0
  then show ?case using assms by (simp add: promptly_Nil run_t_Nil)
next
  case (Suc m)
  let ?msgs = "map (\<lambda>k. file_chunk \<lparr>fileId = fid, chunkIndex = k, totalChunks_c = n, data = f k,
                                   checksum = generateChecksum digest (f k)\<rparr>) [0..<m]"
  let ?t = "run_t digest t (promptly ?msgs)"
  from Suc have inv: "receiving ?t fid a metadata (map f [0..<m])"
    and calls: "onFileReceivedCalls ?t = onFileReceivedCalls t" by simp_all
  have len: "length (map f [0..<m]) = m" by simp
  note step = receive_chunk [OF inv, of digest n "f m", unfolded len]
  show ?case
    using step calls by (simp add: promptly_append run_t_append)
qed

lemma receive_complete:
  assumes "receiving t fid a metadata blocks"
  shows "onFileReceivedCalls (run_t digest t (promptly [file_complete fid finalHash]))
         = onFileReceivedCalls t @ [(concat blocks, metadata)]"
  using assms
  by (simp add: receiving_def run_t_Cons run_t_Nil promptly_Cons promptly_Nil Let_def assemble_Some
      updateFileProgress_def split: option.splits)

lemma receive_file:
  assumes "pendingChecksums r = []"
  shows "map fst (onFileReceivedCalls (run_t digest r (promptly
           (file_metadata payload
            # map (\<lambda>k. file_chunk \<lparr>fileId = id_md payload, chunkIndex = k, totalChunks_c = n, data = f k,
                                   checksum = generateChecksum digest (f k)\<rparr>) [0..<m]
            @ [file_complete (id_md payload) finalHash]))))
         = map fst (onFileReceivedCalls r) @ [concat (map f [0..<m])]"
proof -
  let ?r1 = "run_t digest r (promptly [file_metadata payload])"
  let ?chunks = "map (\<lambda>k. file_chunk \<lparr>fileId = id_md payload, chunkIndex = k, totalChunks_c = n, data = f k,
                                   checksum = generateChecksum digest (f k)\<rparr>) [0..<m]"
  let ?r2 = "run_t digest ?r1 (promptly ?chunks)"
  note r1 = receive_metadata [OF assms, of digest payload]
  note r2 = receive_chunks [OF r1(1), of digest n f m]
  from r2 have inv: "receiving ?r2 (id_md payload) (nextArray r)
           \<lparr>id_md = id_md payload, name_md = sanitizeFileName (name_md payload),
            sanitizedName = sanitizeFileName (sanitizedName payload), size_md = size_md payload,
            type_md = type_md payload, lastModified = lastModified payload,
            totalChunks = totalChunks payload, hash_md = hash_md payload\<rparr> (map f [0..<m])"
    and calls: "onFileReceivedCalls ?r2 = onFileReceivedCalls ?r1" by simp_all
  have split: "run_t digest r (promptly (file_metadata payload # ?chunks @ [file_complete (id_md payload) finalHash]))
      = run_t digest ?r2 (promptly [file_complete (id_md payload) finalHash])"
    by (simp only: promptly_append [symmetric] run_t_append [symmetric] append_Cons append_Nil)
  show ?thesis
    unfolding split receive_complete [OF inv] calls r1(2) by simp
qed

lemma receive_complete_pending:
  assumes "receiving t fid a metadata blocks"
  shows "pendingChecksums (run_t digest t (promptly [file_complete fid finalHash])) = []"
  using assms
  by (simp add: receiving_def run_t_Cons run_t_Nil promptly_Cons promptly_Nil Let_def assemble_Some
      updateFileProgress_def split: option.splits)

lemma receive_file_pending:
  assumes "pendingChecksums r = []"
  shows "pendingChecksums (run_t digest r (promptly
           (file_metadata payload
            # map (\<lambda>k. file_chunk \<lparr>fileId = id_md payload, chunkIndex = k, totalChunks_c = n, data = f k,
                                   checksum = generateChecksum digest (f k)\<rparr>) [0..<m]
            @ [file_complete (id_md payload) finalHash]))) = []"
proof -
  let ?r1 = "run_t digest r (promptly [file_metadata payload])"
  let ?chunks = "map (\<lambda>k. file_chunk \<lparr>fileId = id_md payload, chunkIndex = k, totalChunks_c = n, data = f k,
                                   checksum = generateChecksum digest (f k)\<rparr>) [0..<m]"
  let ?r2 = "run_t digest ?r1 (promptly ?chunks)"
  note r1 = receive_metadata [OF assms, of digest payload]
  note r2 = receive_chunks [OF r1(1), of digest n f m]
  from r2 have inv: "receiving ?r2 (id_md payload) (nextArray r)
           \<lparr>id_md = id_md payload, name_md = sanitizeFileName (name_md payload),
            sanitizedName = sanitizeFileName (sanitizedName payload), size_md = size_md payload,
            type_md = type_md payload, lastModified = lastModified payload,
            totalChunks = totalChunks payload, hash_md = hash_md payload\<rparr> (map f [0..<m])"
    by simp
  have split: "run_t digest r (promptly (file_metadata payload # ?chunks @ [file_complete (id_md payload) finalHash]))
      = run_t digest ?r2 (promptly [file_complete (id_md payload) finalHash])"
    by (simp only: promptly_append [symmetric] run_t_append [symmetric] append_Cons append_Nil)
  show ?thesis
    unfolding split by (rule receive_complete_pending [OF inv])
qed

section \<open>The transfer claims\<close>

text \<open>
  What \<open>sendFiles\<close> emits for one valid file of \<open>S\<close> bytes within the session limit,
  when every send succeeds and the transfer is not cancelled: \<open>batch_start\<close>, the
  metadata, exactly \<open>ceil(S / 65536)\<close> \<open>file_chunk\<close> messages with the indices
  \<open>0, 1, 2, ...\<close> in this order, the \<open>k\<close>-th carrying the 65536 bytes from offset
  \<open>65536 k\<close> (fewer at the end of the file) and their checksum, then \<open>file_complete\<close>
  and \<open>batch_complete\<close>. The chunks' payloads, in this order, make up the file.
\<close>

theorem sender_emits_consecutive_chunks:
  assumes "sendMessage_e env = (\<lambda>_. True)" "cancelledRef_e env = (\<lambda>_. False)"
    and "validateFile file = []"
    and "length (content file) \<le> MAX_SESSION_SIZE"
  shows "outbox (sendFiles env [file] initialTransfer) =
           batch_start (batchId_e env) 1 (length (content file))
           # file_metadata (metadataPayload (batchId_e env) 0 1
               (createFileMetadata (digest_e env) (generateFileId_e env 0) file))
           # map (\<lambda>k. file_chunk \<lparr>fileId = generateFileId_e env 0, chunkIndex = k,
                        totalChunks_c = nat \<lceil>real (length (content file)) / 65536\<rceil>,
                        data = take 65536 (drop (k * 65536) (content file)),
                        checksum = generateChecksum (digest_e env) (take 65536 (drop (k * 65536) (content file)))\<rparr>)
               [0..<nat \<lceil>real (length (content file)) / 65536\<rceil>]
           @ [file_complete (generateFileId_e env 0)
                (generateChecksum (digest_e env) (slice (content file) 0 (int CHUNK_SIZE))),
              batch_complete (batchId_e env)]
       \<and> concat (map (\<lambda>k. take 65536 (drop (k * 65536) (content file)))
           [0..<nat \<lceil>real (length (content file)) / 65536\<rceil>]) = content file"
proof -
  let ?md = "createFileMetadata (digest_e env) (generateFileId_e env 0) file"
  let ?n = "nat \<lceil>real (length (content file)) / 65536\<rceil>"
  have fresh: "map_of (fileProgress initialTransfer) (generateFileId_e env 0) = None"
    by (simp add: initialTransfer_def)
  have md: "id_md ?md = generateFileId_e env 0" "totalChunks ?md = ?n"
    by (simp_all add: createFileMetadata_def real_CHUNK_SIZE)
  have n: "nat \<lceil>real (length (content file)) / real CHUNK_SIZE\<rceil> = ?n"
    by (simp add: real_CHUNK_SIZE)
  have msgs: "map (chunkMessage (digest_e env) file ?md) [0..<?n] =
      map (\<lambda>k. file_chunk \<lparr>fileId = generateFileId_e env 0, chunkIndex = k, totalChunks_c = ?n,
                        data = take 65536 (drop (k * 65536) (content file)),
                        checksum = generateChecksum (digest_e env) (take 65536 (drop (k * 65536) (content file)))\<rparr>)
              [0..<?n]"
    by (simp add: chunkMessage_eq md) (simp add: CHUNK_SIZE_def)
  have cover: "length (content file) \<le> ?n * 65536"
    using chunks_cover [of "length (content file)"] by (simp add: CHUNK_SIZE_def)
  have whole: "concat (map (\<lambda>k. take 65536 (drop (k * 65536) (content file))) [0..<?n]) = content file"
    using cover by (simp add: concat_chunks)
  have out: "outbox initialTransfer = []"
    by (simp add: initialTransfer_def)
  show ?thesis
    unfolding sendFiles_single(3) [OF assms fresh] n msgs out using whole by simp
qed

theorem sender_emits_consecutive_chunks_witness:
  "validateFile twoChunkFile = []
   \<and> length (content twoChunkFile) = 65537
   \<and> nat \<lceil>real (length (content twoChunkFile)) / 65536\<rceil> = 2
   \<and> length (outbox (sendFiles (exampleEnv byteSumDigest) [twoChunkFile] initialTransfer)) = 6"
proof -
  have env: "sendMessage_e (exampleEnv byteSumDigest) = (\<lambda>_. True)" "cancelledRef_e (exampleEnv byteSumDigest) = (\<lambda>_. False)"
    by (simp_all add: exampleEnv_def)
  have ok: "length (content twoChunkFile) \<le> MAX_SESSION_SIZE"
    by (simp add: twoChunkFile_size MAX_SESSION_SIZE_def)
  have n: "nat \<lceil>real (length (content twoChunkFile)) / 65536\<rceil> = 2"
    using totalChunks_div [of "length (content twoChunkFile)"]
    by (simp add: twoChunkFile_size CHUNK_SIZE_def)
  show ?thesis
    using sender_emits_consecutive_chunks [OF env twoChunkFile_valid ok] twoChunkFile_valid twoChunkFile_size n
    by simp
qed

text \<open>
  The round trip, for the schedule in which the receiver verifies each chunk before it
  handles the next message: for one valid file within the session limit, a receiver that
  starts fresh and is given everything \<open>sendFiles\<close> emitted hands over the file's
  content.
\<close>

theorem single_file_end_to_end:
  assumes "sendMessage_e env = (\<lambda>_. True)" "cancelledRef_e env = (\<lambda>_. False)"
    and "validateFile file = []"
    and "length (content file) \<le> MAX_SESSION_SIZE"
  shows "map fst (onFileReceivedCalls (run_t (digest_e env) initialTransfer
           (promptly (outbox (sendFiles env [file] initialTransfer))))) = [content file]"
proof -
  let ?md = "createFileMetadata (digest_e env) (generateFileId_e env 0) file"
  let ?n = "nat \<lceil>real (length (content file)) / real CHUNK_SIZE\<rceil>"
  let ?payload = "metadataPayload (batchId_e env) 0 1 ?md"
  let ?f = "\<lambda>k. take CHUNK_SIZE (drop (k * CHUNK_SIZE) (content file))"
  let ?chunks = "map (\<lambda>k. file_chunk \<lparr>fileId = id_md ?payload, chunkIndex = k, totalChunks_c = ?n, data = ?f k,
                        checksum = generateChecksum (digest_e env) (?f k)\<rparr>) [0..<?n]"
  let ?hash = "generateChecksum (digest_e env) (slice (content file) 0 (int CHUNK_SIZE))"
  let ?r1 = "run_t (digest_e env) initialTransfer (promptly [batch_start (batchId_e env) 1 (length (content file))])"
  have fresh: "map_of (fileProgress initialTransfer) (generateFileId_e env 0) = None"
    by (simp add: initialTransfer_def)
  have ids: "id_md ?payload = generateFileId_e env 0" "totalChunks ?md = ?n" "id_md ?md = generateFileId_e env 0"
    by (simp_all add: metadataPayload_def createFileMetadata_def)
  have msgs: "map (chunkMessage (digest_e env) file ?md) [0..<?n] = ?chunks"
    by (simp add: chunkMessage_eq ids(2,3) metadataPayload_def)
  have out: "outbox (sendFiles env [file] initialTransfer)
      = [batch_start (batchId_e env) 1 (length (content file))]
        @ (file_metadata ?payload # ?chunks @ [file_complete (id_md ?payload) ?hash])
        @ [batch_complete (batchId_e env)]"
    unfolding sendFiles_single(3) [OF assms fresh] msgs ids(1)
    by (simp add: initialTransfer_def)
  have r1: "pendingChecksums ?r1 = []" "onFileReceivedCalls ?r1 = []"
    by (simp_all add: run_t_Cons run_t_Nil promptly_Cons promptly_Nil initialTransfer_def)
  have whole: "concat (map ?f [0..<?n]) = content file"
    using chunks_cover [of "length (content file)"] by (simp add: concat_chunks)
  note received = receive_file [OF r1(1), of "digest_e env" ?payload ?n ?f ?n ?hash, unfolded whole r1(2)]
  note pending = receive_file_pending [OF r1(1), of "digest_e env" ?payload ?n ?f ?n ?hash]
  have last: "onFileReceivedCalls (run_t d t (promptly [batch_complete b])) = onFileReceivedCalls t"
    if "pendingChecksums t = []" for d t b
    using that by (simp add: run_t_Cons run_t_Nil promptly_Cons promptly_Nil Let_def)
  show ?thesis
    unfolding out promptly_append run_t_append last [OF pending] received by simp
qed

theorem single_file_end_to_end_witness:
  "validateFile twoChunkFile = []
   \<and> map fst (onFileReceivedCalls (run_t (digest_e (exampleEnv byteSumDigest)) initialTransfer
        (promptly (outbox (sendFiles (exampleEnv byteSumDigest) [twoChunkFile] initialTransfer)))))
     = [content twoChunkFile]"
proof -
  have env: "sendMessage_e (exampleEnv byteSumDigest) = (\<lambda>_. True)" "cancelledRef_e (exampleEnv byteSumDigest) = (\<lambda>_. False)"
    by (simp_all add: exampleEnv_def)
  have ok: "length (content twoChunkFile) \<le> MAX_SESSION_SIZE"
    by (simp add: twoChunkFile_size MAX_SESSION_SIZE_def)
  show ?thesis
    using single_file_end_to_end [OF env twoChunkFile_valid ok] twoChunkFile_valid by simp
qed

text \<open>
  The receiver stores a chunk at its \<open>chunkIndex\<close>, not at the end of what has arrived:
  two chunks handled in the order 1, 0 are assembled in the order 0, 1.
\<close>

theorem chunks_assembled_by_index:
  "map fst (onFileReceivedCalls (run_t digest initialTransfer (promptly
     [batch_start batch 1 (size_md metadata), file_metadata metadata,
      file_chunk \<lparr>fileId = id_md metadata, chunkIndex = 1, totalChunks_c = 2, data = second,
                   checksum = generateChecksum digest second\<rparr>,
      file_chunk \<lparr>fileId = id_md metadata, chunkIndex = 0, totalChunks_c = 2, data = first,
                   checksum = generateChecksum digest first\<rparr>,
      file_complete (id_md metadata) finalHash]))) = [first @ second]"
  by (simp add: recv_defs arraySet_def assemble_def)

text \<open>
  Claim C4: the sender emits \<open>ceil(S / 65536)\<close> chunks with consecutive slices of the
  file, and when all chunks are delivered the content the receiver assembles on
  \<open>file_complete\<close> is the file's. The sender's half holds
  (\<open>sender_emits_consecutive_chunks\<close>). The receiver stores a chunk in the continuation
  of \<open>verifyChecksum\<close>, and the \<open>file_complete\<close> handler waits for no promise: when it
  runs before the promise of a delivered, intact chunk resolves, the file is assembled
  without that chunk. For a file of the two bytes 1, 2 in one chunk, the content handed
  over is empty, the file's entry says \<open>completed\<close>, and no error is reported.
\<close>

theorem file_complete_overtakes_checksum:
  "map fst (onFileReceivedCalls (run_t digest initialTransfer
     [Handle (batch_start ''b'' 1 2), Handle (file_metadata (exampleMetadata ''f1'' 2)),
      Handle (intactChunk digest ''f1'' [1, 2]), Handle (file_complete ''f1'' []),
      ChecksumResolved 0])) = [[]]
   \<and> onErrorCalls_t (run_t digest initialTransfer
     [Handle (batch_start ''b'' 1 2), Handle (file_metadata (exampleMetadata ''f1'' 2)),
      Handle (intactChunk digest ''f1'' [1, 2]), Handle (file_complete ''f1'' []),
      ChecksumResolved 0]) = []
   \<and> map (\<lambda>(fid, p). (fid, status p)) (fileProgress (run_t digest initialTransfer
     [Handle (batch_start ''b'' 1 2), Handle (file_metadata (exampleMetadata ''f1'' 2)),
      Handle (intactChunk digest ''f1'' [1, 2]), Handle (file_complete ''f1'' []),
      ChecksumResolved 0])) = [(''f1'', completed)]"
  by (simp add: recv_defs exampleMetadata_def intactChunk_def)

text \<open>
  Claim C1: when the payload of a chunk was changed in transit, so that its checksum
  check fails, the receiver reports a corruption error and never marks the file
  completed. The error is reported and the chunk is left out, but the \<open>file_complete\<close>
  that follows is handled as ever: for every digest, metadata, payload and checksum that
  fail the check, the file's entry ends as \<open>completed\<close>, and the content handed over
  lacks the chunk.
\<close>

theorem corrupted_chunk_file_is_completed:
  assumes "\<not> verifyChecksum digest corrupted expected"
  shows "onErrorCalls_t (run_t digest initialTransfer (promptly
           [batch_start batch 1 (size_md metadata), file_metadata metadata,
            file_chunk \<lparr>fileId = id_md metadata, chunkIndex = 0, totalChunks_c = 1,
                         data = corrupted, checksum = expected\<rparr>,
            file_complete (id_md metadata) finalHash])) = [FileCorruptionDetected]
       \<and> map (\<lambda>(fid, p). (fid, status p)) (fileProgress (run_t digest initialTransfer (promptly
           [batch_start batch 1 (size_md metadata), file_metadata metadata,
            file_chunk \<lparr>fileId = id_md metadata, chunkIndex = 0, totalChunks_c = 1,
                         data = corrupted, checksum = expected\<rparr>,
            file_complete (id_md metadata) finalHash]))) = [(id_md metadata, completed)]
       \<and> map fst (onFileReceivedCalls (run_t digest initialTransfer (promptly
           [batch_start batch 1 (size_md metadata), file_metadata metadata,
            file_chunk \<lparr>fileId = id_md metadata, chunkIndex = 0, totalChunks_c = 1,
                         data = corrupted, checksum = expected\<rparr>,
            file_complete (id_md metadata) finalHash]))) = [[]]"
  using assms by (simp add: recv_defs)

theorem corrupted_chunk_file_is_completed_witness:
  "\<not> verifyChecksum byteSumDigest [1, 3] (generateChecksum byteSumDigest [1, 2])
   \<and> onErrorCalls_t (run_t byteSumDigest initialTransfer (promptly
           [batch_start ''b'' 1 2, file_metadata (exampleMetadata ''f1'' 2),
            file_chunk \<lparr>fileId = ''f1'', chunkIndex = 0, totalChunks_c = 1, data = [1, 3],
                         checksum = generateChecksum byteSumDigest [1, 2]\<rparr>,
            file_complete ''f1'' []])) = [FileCorruptionDetected]
   \<and> map (\<lambda>(fid, p). (fid, status p)) (fileProgress (run_t byteSumDigest initialTransfer (promptly
           [batch_start ''b'' 1 2, file_metadata (exampleMetadata ''f1'' 2),
            file_chunk \<lparr>fileId = ''f1'', chunkIndex = 0, totalChunks_c = 1, data = [1, 3],
                         checksum = generateChecksum byteSumDigest [1, 2]\<rparr>,
            file_complete ''f1'' []]))) = [(''f1'', completed)]
   \<and> map fst (onFileReceivedCalls (run_t byteSumDigest initialTransfer (promptly
           [batch_start ''b'' 1 2, file_metadata (exampleMetadata ''f1'' 2),
            file_chunk \<lparr>fileId = ''f1'', chunkIndex = 0, totalChunks_c = 1, data = [1, 3],
                         checksum = generateChecksum byteSumDigest [1, 2]\<rparr>,
            file_complete ''f1'' []]))) = [[]]"
proof -
  have m: "id_md (exampleMetadata ''f1'' 2) = ''f1''" "size_md (exampleMetadata ''f1'' 2) = 2"
    by (simp_all add: exampleMetadata_def)
  show ?thesis
    using corrupted_chunk_file_is_completed [OF byteSumDigest_detects, of "''b''" "exampleMetadata ''f1'' 2" "[]"]
      byteSumDigest_detects
    unfolding m by simp
qed

text \<open>
  Claim C2: after every processed chunk, on both sides, the per-file
  \<open>bytesTransferred\<close> add up to the batch's. On the receiving side the batch counter is
  recomputed from the buffers still held, and \<open>file_complete\<close> releases a file's buffer:
  after the first chunk of the second of two 2-byte files the entries add up to 4 and the
  batch says 2. On the sending side the running total adds, at each chunk, the bytes of
  the file sent so far (the entry it subtracts is looked up in the map captured before
  the transfer began): for one file of 65537 bytes the entry ends at 65537 and the batch
  at 131073.
\<close>

theorem progress_sum_differs_from_batch:
  "sumFileBytes (run_t digest initialTransfer (promptly
      [batch_start ''b'' 2 4, file_metadata (exampleMetadata ''f1'' 2), intactChunk digest ''f1'' [1, 2],
       file_complete ''f1'' [], file_metadata (exampleMetadata ''f2'' 2), intactChunk digest ''f2'' [3, 4]])) = 4
   \<and> bytesTransferred_b (batchProgress (run_t digest initialTransfer (promptly
      [batch_start ''b'' 2 4, file_metadata (exampleMetadata ''f1'' 2), intactChunk digest ''f1'' [1, 2],
       file_complete ''f1'' [], file_metadata (exampleMetadata ''f2'' 2), intactChunk digest ''f2'' [3, 4]]))) = 2
   \<and> \<not> progressConsistent (run_t digest initialTransfer (promptly
      [batch_start ''b'' 2 4, file_metadata (exampleMetadata ''f1'' 2), intactChunk digest ''f1'' [1, 2],
       file_complete ''f1'' [], file_metadata (exampleMetadata ''f2'' 2), intactChunk digest ''f2'' [3, 4]]))
   \<and> sumFileBytes (sendFiles (exampleEnv digest) [twoChunkFile] initialTransfer) = 65537
   \<and> bytesTransferred_b (batchProgress (sendFiles (exampleEnv digest) [twoChunkFile] initialTransfer)) = 131073
   \<and> \<not> progressConsistent (sendFiles (exampleEnv digest) [twoChunkFile] initialTransfer)"
proof -
  have recv: "sumFileBytes (run_t digest initialTransfer (promptly
      [batch_start ''b'' 2 4, file_metadata (exampleMetadata ''f1'' 2), intactChunk digest ''f1'' [1, 2],
       file_complete ''f1'' [], file_metadata (exampleMetadata ''f2'' 2), intactChunk digest ''f2'' [3, 4]])) = 4
   \<and> bytesTransferred_b (batchProgress (run_t digest initialTransfer (promptly
      [batch_start ''b'' 2 4, file_metadata (exampleMetadata ''f1'' 2), intactChunk digest ''f1'' [1, 2],
       file_complete ''f1'' [], file_metadata (exampleMetadata ''f2'' 2), intactChunk digest ''f2'' [3, 4]]))) = 2"
    by (simp add: recv_defs exampleMetadata_def intactChunk_def)
  show ?thesis
    using recv twoChunkFile_sent [of digest] by (simp add: progressConsistent_def)
qed

end
